theory Spec2Isabelle
  imports Main
begin

section \<open>JavaScript values\<close>

text \<open>
  The values that travel between the parent and the worker and through the callbacks of
  the promise class. Numbers are the integers (request ids and results; NaN and
  fractions are left out). An object is the ordered list of its own properties.
  \<open>VError\<close> is an instance of \<open>Error\<close> or of a subclass: only its own properties are
  listed, what it inherits from the prototype (\<open>name\<close> of a standard error) is not an
  own property. \<open>VTransfer\<close> is an instance of the class \<open>Transfer\<close> (message,
  transfer). \<open>VThenable c s\<close> is an object whose \<open>then\<close> is callable, whose \<open>catch\<close> is
  callable iff \<open>c\<close>, both inherited from its prototype, and which settles as \<open>s\<close> says.
  Property values are data: the only callable members are those of \<open>VThenable\<close>.
\<close>

datatype jsval =
    VUndefined
  | VNull
  | VBool bool
  | VNum int
  | VStr string
  | VArr "jsval list"
  | VObj "(string \<times> jsval) list"
  | VError "(string \<times> jsval) list"
  | VTransfer jsval "jsval list"
  | VThenable bool settlement
and settlement =
    Fulfils jsval
  | Rejects jsval
  | Never

text \<open>The conversion to boolean of \<open>if (v)\<close> and \<open>v && ...\<close>.\<close>

fun truthy :: "jsval \<Rightarrow> bool" where
  "truthy VUndefined = False"
| "truthy VNull = False"
| "truthy (VBool b) = b"
| "truthy (VNum n) = (n \<noteq> 0)"
| "truthy (VStr s) = (s \<noteq> [])"
| "truthy _ = True"

text \<open>\<open>typeof value[name] === 'function'\<close>, for a value that is not null or undefined.\<close>

fun has_callable :: "string \<Rightarrow> jsval \<Rightarrow> bool" where
  "has_callable name (VThenable c s) = (name = ''then'' \<or> (name = ''catch'' \<and> c))"
| "has_callable name _ = False"

text \<open>
  \<open>isPromise\<close>, the same duck typing in Promise.ts (inside \<open>_then\<close>) and in the worker
  runtime: truthy, callable \<open>then\<close>, callable \<open>catch\<close>.
\<close>

definition isPromise :: "jsval \<Rightarrow> bool" where
  "isPromise v = (truthy v \<and> has_callable ''then'' v \<and> has_callable ''catch'' v)"

fun settlement_of :: "jsval \<Rightarrow> settlement" where
  "settlement_of (VThenable c s) = s"
| "settlement_of _ = Never"

subsection \<open>Own properties\<close>

definition digit_char :: "nat \<Rightarrow> char" where
  "digit_char d = char_of (48 + d)"

function show_nat :: "nat \<Rightarrow> string" where
  "show_nat n = (if n < 10 then [digit_char n] else show_nat (n div 10) @ [digit_char (n mod 10)])"
  by pat_completeness auto
termination
  by (relation "measure id") auto

declare show_nat.simps [simp del]

definition indexed :: "jsval list \<Rightarrow> (string \<times> jsval) list" where
  "indexed xs = map (\<lambda>(i, x). (show_nat i, x)) (zip [0 ..< length xs] xs)"

text \<open>
  \<open>Object.getOwnPropertyNames(v)\<close> with the value of each property; \<open>None\<close> is the
  TypeError it throws for null and undefined. Numbers and booleans are boxed into
  objects without own properties, a string has its characters and \<open>length\<close>.
\<close>

fun own_props :: "jsval \<Rightarrow> (string \<times> jsval) list option" where
  "own_props VUndefined = None"
| "own_props VNull = None"
| "own_props (VBool b) = Some []"
| "own_props (VNum n) = Some []"
| "own_props (VStr s) = Some (indexed (map (\<lambda>c. VStr [c]) s) @ [(''length'', VNum (int (length s)))])"
| "own_props (VArr xs) = Some (indexed xs @ [(''length'', VNum (int (length xs)))])"
| "own_props (VObj ps) = Some ps"
| "own_props (VError ps) = Some ps"
| "own_props (VTransfer m t) = Some [(''message'', m), (''transfer'', VArr t)]"
| "own_props (VThenable c s) = Some []"

text \<open>\<open>error[name]\<close> for an own property name: the first entry under that name.\<close>

definition get_own :: "(string \<times> jsval) list \<Rightarrow> string \<Rightarrow> jsval" where
  "get_own ps name = (case map_of ps name of Some v \<Rightarrow> v | None \<Rightarrow> VUndefined)"

text \<open>
  \<open>new Error(message)\<close> as the host (V8) builds it: own properties \<open>stack\<close> and
  \<open>message\<close>; \<open>name\<close> lives on \<open>Error.prototype\<close>. The text of the stack trace is the
  host's, so it is an argument.
\<close>

definition new_Error :: "string \<Rightarrow> string \<Rightarrow> jsval" where
  "new_Error trace msg = VError [(''stack'', VStr trace), (''message'', VStr msg)]"

text \<open>
  \<open>convertError\<close>: a fresh object that gets, for each own property name of the error in
  turn, an enumerable property holding \<open>error[name]\<close>. \<open>Inl\<close> is the TypeError of
  \<open>Object.getOwnPropertyNames\<close> on null or undefined.
\<close>

definition convertError :: "string \<Rightarrow> jsval \<Rightarrow> jsval + jsval" where
  "convertError trace err =
     (case own_props err of
        None \<Rightarrow> Inl (new_Error trace ''Cannot convert undefined or null to object'')
      | Some ps \<Rightarrow> Inr (VObj (foldl (\<lambda>product name. product @ [(name, get_own ps name)]) [] (map fst ps))))"

section \<open>The worker runtime\<close>

text \<open>
  What a user function does when it is applied: the payloads it hands to \<open>emit\<close> while it
  runs, then a returned value or a thrown one.
\<close>

datatype completion = Returned jsval | Thrown jsval

type_synonym behaviour = "jsval list \<times> completion"

text \<open>
  The callable members of \<open>workerMethods\<close>: a registered user function, the two built-in
  ones, and \<open>Object.prototype.toString\<close>, which the object literal inherits.
\<close>

datatype callable =
    UserMethod "jsval list \<Rightarrow> behaviour"
  | BuiltinRun
  | BuiltinMethods
  | ObjectToString

text \<open>Messages handed to \<open>worker.send\<close>, with the transfer list when one is passed.\<close>

datatype message =
    Ready
  | Response jsval jsval jsval "jsval list option"
  | Event jsval jsval "jsval list option"

text \<open>What the parent sends: a string, or a request \<open>{id, method, params}\<close>.\<close>

datatype inbound =
    Text string
  | Request int string "jsval list"

text \<open>A continuation attached to a promise: the reply to a request, or \<open>_exit\<close>.\<close>

datatype continuation = ReplyTo jsval | ExitWith int

text \<open>
  The module's state. \<open>sent\<close> is every \<open>worker.send\<close> so far, oldest first; \<open>exited\<close>
  is the code \<open>worker.exit\<close> was called with (\<open>process.exit\<close> under Node; the browser
  branch leaves the stub that returns undefined); \<open>awaiting\<close> are the promises the
  runtime attached continuations to; \<open>uncaught\<close> are exceptions that left a handler.
  \<open>evalFunction\<close> is the host's \<open>new Function(...)\<close> applied as the built-in \<open>run\<close>
  does, and \<open>trace\<close> the stack text the host gives to an error created here.
\<close>

record worker =
  workerMethods :: "(string \<times> callable) list"
  terminationHandler :: "(jsval \<Rightarrow> completion) option"
  currentRequestId :: jsval
  sent :: "message list"
  exited :: "int option"
  awaiting :: "(settlement \<times> continuation) list"
  uncaught :: "jsval list"
  evalFunction :: "jsval list \<Rightarrow> behaviour"
  trace :: string

definition TERMINATE_METHOD_ID :: string where
  "TERMINATE_METHOD_ID = ''__workerpool-terminate__''"

text \<open>The state after the module is loaded: the two built-in methods, no handler.\<close>

definition initial_worker :: "(jsval list \<Rightarrow> behaviour) \<Rightarrow> string \<Rightarrow> worker" where
  "initial_worker ev tr =
     \<lparr> workerMethods = [(''run'', BuiltinRun), (''methods'', BuiltinMethods)],
       terminationHandler = None,
       currentRequestId = VUndefined,
       sent = [],
       exited = None,
       awaiting = [],
       uncaught = [],
       evalFunction = ev,
       trace = tr \<rparr>"

definition send :: "message \<Rightarrow> worker \<Rightarrow> worker" where
  "send m w = w\<lparr>sent := sent w @ [m]\<rparr>"

text \<open>
  \<open>workerMethods[name]\<close> is a plain property read: an own property first, then what
  the object literal inherits from \<open>Object.prototype\<close>. Of the inherited members
  \<open>toString\<close> is modelled (applied to a function it returns \<open>[object Function]\<close>);
  the others (\<open>constructor\<close>, \<open>valueOf\<close>, \<open>hasOwnProperty\<close> and so on) are left out,
  so the lookup of the model finds fewer inherited names than the code does.
\<close>

definition Object_prototype :: "string \<Rightarrow> callable option" where
  "Object_prototype name = (if name = ''toString'' then Some ObjectToString else None)"

definition lookup_method :: "worker \<Rightarrow> string \<Rightarrow> callable option" where
  "lookup_method w name =
     (case map_of (workerMethods w) name of
        Some m \<Rightarrow> Some m
      | None \<Rightarrow> Object_prototype name)"

text \<open>
  \<open>Object.keys\<close> of an object whose own properties were created in the order of the
  list: the keys that are array indices (canonical decimal numerals below
  \<open>2^32 - 1\<close>) come first, in ascending numeric order, then the other keys in the order
  of their creation.
\<close>

definition array_index :: "string \<Rightarrow> int option" where
  "array_index k =
     (let n = foldl (\<lambda>a c. 10 * a + (of_char c - 48)) (0::int) k
      in if k \<noteq> [] \<and> list_all (\<lambda>c. 48 \<le> (of_char c :: int) \<and> (of_char c :: int) \<le> 57) k
            \<and> (k = ''0'' \<or> hd k \<noteq> CHR ''0'') \<and> n < 4294967295
         then Some n else None)"

definition Object_keys :: "(string \<times> 'a) list \<Rightarrow> string list" where
  "Object_keys ps =
     sort_key (\<lambda>k. case array_index k of Some n \<Rightarrow> n | None \<Rightarrow> 0)
       (filter (\<lambda>k. array_index k \<noteq> None) (map fst ps))
     @ filter (\<lambda>k. array_index k = None) (map fst ps)"

text \<open>\<open>method.apply(method, params)\<close>.\<close>

fun invoke :: "worker \<Rightarrow> callable \<Rightarrow> jsval list \<Rightarrow> behaviour" where
  "invoke w (UserMethod f) params = f params"
| "invoke w BuiltinRun params = evalFunction w params"
| "invoke w BuiltinMethods params = ([], Returned (VArr (map VStr (Object_keys (workerMethods w)))))"
| "invoke w ObjectToString params = ([], Returned (VStr ''[object Function]''))"

text \<open>\<open>emit\<close>.\<close>

definition emit :: "jsval \<Rightarrow> worker \<Rightarrow> worker" where
  "emit payload w =
     (if truthy (currentRequestId w) then
        (case payload of
           VTransfer m t \<Rightarrow> send (Event (currentRequestId w) m (Some t)) w
         | _ \<Rightarrow> send (Event (currentRequestId w) payload None) w)
      else w)"

text \<open>
  The two ways the handler answers. \<open>respond\<close> is the success branch (with the
  \<open>instanceof Transfer\<close> test) followed by \<open>currentRequestId = null\<close>. \<open>reply_error\<close> is
  \<open>worker.send({id, result: null, error: convertError(err)})\<close>: when \<open>convertError\<close>
  throws, nothing is sent and the TypeError leaves the handler.
\<close>

definition success_reply :: "jsval \<Rightarrow> jsval \<Rightarrow> message" where
  "success_reply rid result =
     (case result of
        VTransfer m t \<Rightarrow> Response rid m VNull (Some t)
      | _ \<Rightarrow> Response rid result VNull None)"

definition respond :: "jsval \<Rightarrow> jsval \<Rightarrow> worker \<Rightarrow> worker" where
  "respond rid result w = (send (success_reply rid result) w) \<lparr>currentRequestId := VNull\<rparr>"

definition reply_error :: "jsval \<Rightarrow> jsval \<Rightarrow> worker \<Rightarrow> worker + worker" where
  "reply_error rid err w =
     (case convertError (trace w) err of
        Inl type_error \<Rightarrow> Inl (w\<lparr>uncaught := uncaught w @ [type_error]\<rparr>)
      | Inr e \<Rightarrow> Inr (send (Response rid VNull e None) w))"

definition merge_sum :: "'a + 'a \<Rightarrow> 'a" where
  "merge_sum x = (case x of Inl a \<Rightarrow> a | Inr a \<Rightarrow> a)"

text \<open>\<open>_exit\<close> inside \<open>cleanupAndExit\<close>.\<close>

definition exit_worker :: "int \<Rightarrow> worker \<Rightarrow> worker" where
  "exit_worker code w = w\<lparr>exited := Some code\<rparr>"

text \<open>
  \<open>cleanupAndExit\<close>. A handler that throws lets the exception leave; a promise gets
  \<open>_exit\<close> for both outcomes.
\<close>

definition cleanupAndExit :: "int \<Rightarrow> worker \<Rightarrow> worker" where
  "cleanupAndExit code w =
     (case terminationHandler w of
        None \<Rightarrow> exit_worker code w
      | Some h \<Rightarrow>
          (case h (VNum code) of
             Thrown e \<Rightarrow> w\<lparr>uncaught := uncaught w @ [e]\<rparr>
           | Returned result \<Rightarrow>
               if isPromise result
               then w\<lparr>awaiting := awaiting w @ [(settlement_of result, ExitWith code)]\<rparr>
               else exit_worker code w))"

text \<open>
  The body of the \<open>try\<close> for a request with id \<open>rid\<close> and method name \<open>name\<close>, and the
  \<open>catch\<close> around it.
\<close>

definition serve :: "jsval \<Rightarrow> string \<Rightarrow> jsval list \<Rightarrow> worker \<Rightarrow> worker" where
  "serve rid name params w =
     (case lookup_method w name of
        Some m \<Rightarrow>
          (let w1 = w\<lparr>currentRequestId := rid\<rparr>;
               b = invoke w1 m params;
               w2 = foldl (\<lambda>a payload. emit payload a) w1 (fst b)
           in case snd b of
                Thrown err \<Rightarrow> merge_sum (reply_error rid err w2)
              | Returned result \<Rightarrow>
                  if isPromise result
                  then w2\<lparr>awaiting := awaiting w2 @ [(settlement_of result, ReplyTo rid)]\<rparr>
                  else respond rid result w2)
      | None \<Rightarrow>
          merge_sum (reply_error rid
            (new_Error (trace w) (''Unknown method '' @ [CHR 0x22] @ name @ [CHR 0x22])) w))"

text \<open>
  The \<open>message\<close> listener. A string other than the sentinel has no \<open>id\<close> and no
  \<open>method\<close>: both read as undefined, and the method name becomes the key
  \<open>undefined\<close>.
\<close>

fun on_message :: "inbound \<Rightarrow> worker \<Rightarrow> worker" where
  "on_message (Text s) w =
     (if s = TERMINATE_METHOD_ID then cleanupAndExit 0 w
      else serve VUndefined ''undefined'' [] w)"
| "on_message (Request rid name params) w = serve (VNum rid) name params w"

text \<open>
  A promise the runtime waits for settles: the continuation attached to it runs. For a
  reply, fulfilment runs the \<open>then\<close> callback and rejection the \<open>catch\<close> callback, where
  \<open>currentRequestId = null\<close> follows the send (so it is skipped when \<open>convertError\<close>
  throws). For \<open>_exit\<close> both outcomes exit. A promise that never settles stays.
\<close>

fun run_continuation :: "settlement \<Rightarrow> continuation \<Rightarrow> worker \<Rightarrow> worker" where
  "run_continuation (Fulfils v) (ReplyTo rid) w = respond rid v w"
| "run_continuation (Rejects e) (ReplyTo rid) w =
     (case reply_error rid e w of
        Inl w' \<Rightarrow> w'
      | Inr w' \<Rightarrow> w'\<lparr>currentRequestId := VNull\<rparr>)"
| "run_continuation (Fulfils v) (ExitWith code) w = exit_worker code w"
| "run_continuation (Rejects e) (ExitWith code) w = exit_worker code w"
| "run_continuation Never k w = w"

text \<open>All promises waited for that settle do so, in the order they were attached.\<close>

definition settle_all :: "worker \<Rightarrow> worker" where
  "settle_all w =
     foldl (\<lambda>a (s, k). run_continuation s k a)
       (w\<lparr>awaiting := filter (\<lambda>(s, k). s = Never) (awaiting w)\<rparr>)
       (filter (\<lambda>(s, k). s \<noteq> Never) (awaiting w))"

text \<open>
  \<open>register\<close>: each own enumerable property of \<open>methods\<close> is assigned into
  \<open>workerMethods\<close>, \<open>options.onTerminate\<close> replaces the handler when options are
  given, and \<open>ready\<close> is sent. The list \<open>workerMethods\<close> keeps the order in which the
  keys were created (an assignment to an existing key leaves it in place); the order
  in which the host lists them is that of \<open>Object_keys\<close>.
\<close>

fun assign :: "(string \<times> callable) list \<Rightarrow> string \<Rightarrow> callable \<Rightarrow> (string \<times> callable) list" where
  "assign [] k v = [(k, v)]"
| "assign ((k', v') # ps) k v = (if k' = k then (k, v) # ps else (k', v') # assign ps k v)"

definition register :: "(string \<times> (jsval list \<Rightarrow> behaviour)) list option
    \<Rightarrow> (jsval \<Rightarrow> completion) option option \<Rightarrow> worker \<Rightarrow> worker" where
  "register methods options w =
     (let w1 = (case methods of
                  None \<Rightarrow> w
                | Some ms \<Rightarrow> w\<lparr>workerMethods :=
                    foldl (\<lambda>reg (k, f). assign reg k (UserMethod f)) (workerMethods w) ms\<rparr>);
          w2 = (case options of
                  None \<Rightarrow> w1
                | Some onTerminate \<Rightarrow> w1\<lparr>terminationHandler := onTerminate\<rparr>)
      in send Ready w2)"

section \<open>Notions used in the statements about the worker runtime\<close>

definition is_event :: "message \<Rightarrow> bool" where
  "is_event m = (case m of Event i p t \<Rightarrow> True | _ \<Rightarrow> False)"

definition is_response_to :: "jsval \<Rightarrow> message \<Rightarrow> bool" where
  "is_response_to rid m = (case m of Response i r e t \<Rightarrow> i = rid | _ \<Rightarrow> False)"





text \<open>The field names of the record \<open>convertError\<close> returns (none when it throws).\<close>

definition record_fields :: "jsval + jsval \<Rightarrow> string list" where
  "record_fields r = (case r of Inr (VObj ps) \<Rightarrow> map fst ps | _ \<Rightarrow> [])"

text \<open>A worker right after \<open>register(methods)\<close>, on a host that evaluates nothing.\<close>

definition worker_with :: "(string \<times> (jsval list \<Rightarrow> behaviour)) list \<Rightarrow> worker" where
  "worker_with ms = register (Some ms) None (initial_worker (\<lambda>params. ([], Returned VUndefined)) [])"

section \<open>The promise class (Promise.ts)\<close>

text \<open>
  Instances live in a heap, addressed by numbers. What a callback hands back is a plain
  value, an instance of this class (which has \<open>then\<close> and \<open>catch\<close> by its prototype),
  or an exception. A user callback is a function of its argument with a label under
  which its invocations are logged; it does not itself call into the heap.
\<close>

datatype outcome = Returns jsval | ReturnsDeferred nat | Throws jsval

text \<open>
  The functions the class passes around: a user callback; the two arrows
  \<open>(result) => this._resolve(result)\<close> and \<open>(error) => this._reject(error)\<close> the
  constructor hands to its handler; \<open>() => clearTimeout(timer)\<close> of \<open>timeout\<close>; and the
  function \<open>_then(callback, resolve, reject)\<close> returns, for the \<open>resolve\<close> and \<open>reject\<close>
  of the instance given.
\<close>

datatype fn =
    User nat "jsval \<Rightarrow> outcome"
  | ResolveOf nat
  | RejectOf nat
  | ClearTimeout nat
  | Wrapped fn nat

text \<open>
  \<open>_process\<close> of an instance: the method of the class, which queues, or one of the two
  closures \<open>_resolve\<close> and \<open>_reject\<close> put in its place.
\<close>

datatype proc = Queue | CallSuccess jsval | CallFail jsval

text \<open>
  An instance. \<open>inert\<close> says that \<open>this._resolve\<close> and \<open>this._reject\<close> have been
  replaced by \<open>() => {}\<close>.
\<close>

record deferred =
  onSuccess :: "fn list"
  onFail :: "fn list"
  resolved :: bool
  rejected :: bool
  pending :: bool
  parent :: "nat option"
  process :: proc
  inert :: bool

record timer =
  delay :: "nat option"
  armed :: bool

text \<open>
  \<open>log\<close> lists the invocations of user callbacks (label, argument), oldest first;
  \<open>subscriptions\<close> the calls \<open>res.then(resolve, reject)\<close> made on a promise that is not
  of this class, with the instance whose \<open>resolve\<close> and \<open>reject\<close> were passed;
  \<open>unhandled\<close> the exceptions thrown out of a timer callback; \<open>stack_text\<close> the stack
  text the host gives to the errors created here.
\<close>

record pstate =
  heap :: "nat \<Rightarrow> deferred"
  allocated :: nat
  timers :: "timer list"
  log :: "(nat \<times> jsval) list"
  subscriptions :: "(settlement \<times> nat) list"
  unhandled :: "jsval list"
  stack_text :: string

definition fresh :: "nat option \<Rightarrow> deferred" where
  "fresh par = \<lparr> onSuccess = [], onFail = [], resolved = False, rejected = False,
                 pending = True, parent = par, process = Queue, inert = False \<rparr>"

definition initial :: "string \<Rightarrow> pstate" where
  "initial tr = \<lparr> heap = (\<lambda>a. fresh None), allocated = 0, timers = [], log = [],
                  subscriptions = [], unhandled = [], stack_text = tr \<rparr>"

definition update :: "nat \<Rightarrow> (deferred \<Rightarrow> deferred) \<Rightarrow> pstate \<Rightarrow> pstate" where
  "update p f s = s\<lparr>heap := (heap s)(p := f (heap s p))\<rparr>"

text \<open>The field initialisers of \<open>new Promise(handler, parent)\<close>; the new address is \<open>allocated s\<close>.\<close>

definition construct :: "nat option \<Rightarrow> pstate \<Rightarrow> pstate" where
  "construct par s = s\<lparr>heap := (heap s)(allocated s := fresh par), allocated := Suc (allocated s)\<rparr>"

definition clearTimeout :: "nat \<Rightarrow> pstate \<Rightarrow> pstate" where
  "clearTimeout t s =
     (if t < length (timers s) then s\<lparr>timers := (timers s)[t := (timers s ! t)\<lparr>armed := False\<rparr>]\<rparr> else s)"

text \<open>
  \<open>new CancellationError()\<close>: the class field \<open>name\<close> and the parameter property
  \<open>message\<close> are own properties. \<open>new TimeoutError(message)\<close> has no field \<open>name\<close>.
\<close>

definition CancellationError :: "string \<Rightarrow> jsval" where
  "CancellationError tr =
     VError [(''stack'', VStr tr), (''message'', VStr ''promise cancelled''), (''name'', VStr ''CancellationError'')]"

definition TimeoutError :: "string \<Rightarrow> string \<Rightarrow> jsval" where
  "TimeoutError tr msg = VError [(''stack'', VStr tr), (''message'', VStr msg)]"

definition show_delay :: "nat option \<Rightarrow> string" where
  "show_delay d = (case d of None \<Rightarrow> ''undefined'' | Some n \<Rightarrow> show_nat n)"

subsection \<open>The methods that call each other\<close>

text \<open>
  The methods call each other through callbacks stored in the heap, so the calls are
  interpreted with a bound on their nesting depth: \<open>run k c s\<close> is the result of the
  call \<open>c\<close> in state \<open>s\<close> when no chain of nested calls is longer than \<open>k\<close>, and
  \<open>None\<close> otherwise. A result is what the call hands back and the state it leaves.
  Where the nesting has no end, the host stops it with a RangeError, which the
  \<open>try\<close> in the closure of \<open>_then\<close> catches; the model has no result there for any
  \<open>k\<close>. That is so when a callback hands back an instance of the class that is settled:
  \<open>then\<close> is called on it with the \<open>resolve\<close> arrow as callback, which hands back
  an instance again.
\<close>

datatype call =
    CallFn fn jsval
  | Resolve nat jsval
  | Reject nat jsval
  | ForEach "fn list" jsval
  | Process nat fn fn
  | Then nat "fn option" "fn option"

type_synonym result = "(outcome \<times> pstate) option"

text \<open>Sequencing: an exception passes through, as does running out of depth.\<close>

definition normally :: "result \<Rightarrow> (outcome \<Rightarrow> pstate \<Rightarrow> result) \<Rightarrow> result" where
  "normally r k =
     (case r of
        None \<Rightarrow> None
      | Some (Throws e, s) \<Rightarrow> Some (Throws e, s)
      | Some (x, s) \<Rightarrow> k x s)"

definition returning :: "outcome \<Rightarrow> result \<Rightarrow> result" where
  "returning x r = normally r (\<lambda>y s. Some (x, s))"

text \<open>
  Applying a function to one argument. The last equation is the closure of \<open>_then\<close>:
  the \<open>try\<close> block (callback, then \<open>isPromise\<close>, then either \<open>res.then(resolve, reject)\<close>
  or \<open>resolve(res)\<close>) and the \<open>catch\<close> that calls \<open>reject(error)\<close>.
\<close>

fun call_fn :: "(call \<Rightarrow> pstate \<Rightarrow> result) \<Rightarrow> fn \<Rightarrow> jsval \<Rightarrow> pstate \<Rightarrow> result" where
  "call_fn rec (User l f) v s = Some (f v, s\<lparr>log := log s @ [(l, v)]\<rparr>)"
| "call_fn rec (ResolveOf p) v s = rec (Resolve p v) s"
| "call_fn rec (RejectOf p) v s = rec (Reject p v) s"
| "call_fn rec (ClearTimeout t) v s = Some (Returns VUndefined, clearTimeout t s)"
| "call_fn rec (Wrapped callback c) v s =
     (case (case rec (CallFn callback v) s of
              None \<Rightarrow> None
            | Some (Throws e, s1) \<Rightarrow> Some (Throws e, s1)
            | Some (ReturnsDeferred r, s1) \<Rightarrow>
                rec (Then r (Some (ResolveOf c)) (Some (RejectOf c))) s1
            | Some (Returns res, s1) \<Rightarrow>
                if isPromise res
                then Some (Returns VUndefined,
                           s1\<lparr>subscriptions := subscriptions s1 @ [(settlement_of res, c)]\<rparr>)
                else rec (Resolve c res) s1) of
        None \<Rightarrow> None
      | Some (Throws e, s2) \<Rightarrow> returning (Returns VUndefined) (rec (Reject c e) s2)
      | Some (x, s2) \<Rightarrow> Some (Returns VUndefined, s2))"

text \<open>\<open>_resolve\<close> and \<open>_reject\<close>: the method of the class, or the empty function.\<close>

definition Promise_resolve :: "(call \<Rightarrow> pstate \<Rightarrow> result) \<Rightarrow> nat \<Rightarrow> jsval \<Rightarrow> pstate \<Rightarrow> result" where
  "Promise_resolve rec p v s =
     (if inert (heap s p) then Some (Returns VUndefined, s)
      else
        let s1 = update p (\<lambda>d. d\<lparr>resolved := True, rejected := False, pending := False\<rparr>) s
        in normally (rec (ForEach (onSuccess (heap s1 p)) v) s1)
             (\<lambda>x s2. Some (ReturnsDeferred p,
                 update p (\<lambda>d. d\<lparr>process := CallSuccess v, inert := True\<rparr>) s2)))"

definition Promise_reject :: "(call \<Rightarrow> pstate \<Rightarrow> result) \<Rightarrow> nat \<Rightarrow> jsval \<Rightarrow> pstate \<Rightarrow> result" where
  "Promise_reject rec p v s =
     (if inert (heap s p) then Some (Returns VUndefined, s)
      else
        let s1 = update p (\<lambda>d. d\<lparr>resolved := False, rejected := True, pending := False\<rparr>) s
        in normally (rec (ForEach (onFail (heap s1 p)) v) s1)
             (\<lambda>x s2. Some (ReturnsDeferred p,
                 update p (\<lambda>d. d\<lparr>process := CallFail v, inert := True\<rparr>) s2)))"

text \<open>\<open>forEach\<close> over the elements the array has when it starts.\<close>

fun forEach :: "(call \<Rightarrow> pstate \<Rightarrow> result) \<Rightarrow> fn list \<Rightarrow> jsval \<Rightarrow> pstate \<Rightarrow> result" where
  "forEach rec [] v s = Some (Returns VUndefined, s)"
| "forEach rec (f # fs) v s = normally (rec (CallFn f v) s) (\<lambda>x s1. rec (ForEach fs v) s1)"

text \<open>\<open>_process\<close>.\<close>

definition Promise_process :: "(call \<Rightarrow> pstate \<Rightarrow> result) \<Rightarrow> nat \<Rightarrow> fn \<Rightarrow> fn \<Rightarrow> pstate \<Rightarrow> result" where
  "Promise_process rec p sf ff s =
     (case process (heap s p) of
        Queue \<Rightarrow> Some (Returns VUndefined,
                   update p (\<lambda>d. d\<lparr>onSuccess := onSuccess d @ [sf], onFail := onFail d @ [ff]\<rparr>) s)
      | CallSuccess result \<Rightarrow> rec (CallFn sf result) s
      | CallFail error \<Rightarrow> rec (CallFn ff error) s)"

text \<open>\<open>then\<close>: the new instance, whose handler runs inside its constructor.\<close>

definition Promise_then :: "(call \<Rightarrow> pstate \<Rightarrow> result) \<Rightarrow> nat \<Rightarrow> fn option \<Rightarrow> fn option \<Rightarrow> pstate \<Rightarrow> result" where
  "Promise_then rec p onSuccess' onFail' s =
     (let n = allocated s;
          s1 = construct (Some p) s;
          sf = (case onSuccess' of Some cb \<Rightarrow> Wrapped cb n | None \<Rightarrow> ResolveOf n);
          ff = (case onFail' of Some cb \<Rightarrow> Wrapped cb n | None \<Rightarrow> RejectOf n)
      in returning (ReturnsDeferred n) (rec (Process p sf ff) s1))"

fun step :: "(call \<Rightarrow> pstate \<Rightarrow> result) \<Rightarrow> call \<Rightarrow> pstate \<Rightarrow> result" where
  "step rec (CallFn f v) s = call_fn rec f v s"
| "step rec (Resolve p v) s = Promise_resolve rec p v s"
| "step rec (Reject p v) s = Promise_reject rec p v s"
| "step rec (ForEach fs v) s = forEach rec fs v s"
| "step rec (Process p sf ff) s = Promise_process rec p sf ff s"
| "step rec (Then p a b) s = Promise_then rec p a b s"

primrec run :: "nat \<Rightarrow> call \<Rightarrow> pstate \<Rightarrow> result" where
  "run 0 c s = None"
| "run (Suc k) c s = step (run k) c s"

subsection \<open>cancel and timeout\<close>

text \<open>
  \<open>cancel\<close>: up the parent chain (the first bound counts the instances visited), then
  \<open>_reject\<close> with a new CancellationError. It returns \<open>this\<close>.
\<close>

primrec Promise_cancel :: "nat \<Rightarrow> nat \<Rightarrow> nat \<Rightarrow> pstate \<Rightarrow> result" where
  "Promise_cancel 0 k p s = None"
| "Promise_cancel (Suc w) k p s =
     returning (ReturnsDeferred p)
       (case parent (heap s p) of
          Some q \<Rightarrow> Promise_cancel w k q s
        | None \<Rightarrow> run k (Reject p (CancellationError (stack_text s))) s)"

text \<open>
  \<open>timeout\<close>: up the parent chain; at the root \<open>setTimeout\<close> adds a timer and
  \<open>always\<close>, which is \<open>then(fn, fn)\<close>, registers the function that clears it.
\<close>

primrec Promise_timeout :: "nat \<Rightarrow> nat \<Rightarrow> nat \<Rightarrow> nat option \<Rightarrow> pstate \<Rightarrow> result" where
  "Promise_timeout 0 k p d s = None"
| "Promise_timeout (Suc w) k p d s =
     returning (ReturnsDeferred p)
       (case parent (heap s p) of
          Some q \<Rightarrow> Promise_timeout w k q d s
        | None \<Rightarrow>
            let t = length (timers s);
                s1 = s\<lparr>timers := timers s @ [\<lparr>delay = d, armed = True\<rparr>]\<rparr>
            in run k (Then p (Some (ClearTimeout t)) (Some (ClearTimeout t))) s1)"

text \<open>
  The callback handed to \<open>setTimeout\<close> is written with \<open>function\<close>, not as an arrow, so
  its \<open>this\<close> is the receiver the caller supplies. \<open>reject_member\<close> is \<open>this._reject\<close>:
  the method for an instance of the class, undefined for the object the host calls a
  timer callback on (the Timeout object under Node, the global object in a browser).
\<close>

datatype receiver = Instance nat | HostTimer nat

fun reject_member :: "receiver \<Rightarrow> fn option" where
  "reject_member (Instance p) = Some (RejectOf p)"
| "reject_member (HostTimer t) = None"

definition timeout_callback :: "nat \<Rightarrow> receiver \<Rightarrow> nat option \<Rightarrow> pstate \<Rightarrow> result" where
  "timeout_callback k this d s =
     (case reject_member this of
        None \<Rightarrow> Some (Throws (new_Error (stack_text s) ''this._reject is not a function''), s)
      | Some f \<Rightarrow>
          returning (Returns VUndefined)
            (run k (CallFn f (TimeoutError (stack_text s)
                (''Promise timed out after '' @ show_delay d @ '' ms''))) s))"

text \<open>The host fires timer \<open>t\<close> if it is still armed; an exception of the callback is unhandled.\<close>

definition fire_timer :: "nat \<Rightarrow> nat \<Rightarrow> pstate \<Rightarrow> pstate option" where
  "fire_timer k t s =
     (if t < length (timers s) \<and> armed (timers s ! t) then
        (case timeout_callback k (HostTimer t) (delay (timers s ! t)) (clearTimeout t s) of
           None \<Rightarrow> None
         | Some (Throws e, s') \<Rightarrow> Some (s'\<lparr>unhandled := unhandled s' @ [e]\<rparr>)
         | Some (x, s') \<Rightarrow> Some s')
      else Some s)"

text \<open>A promise that is not of this class settles: the callbacks passed to its \<open>then\<close> run.\<close>

fun deliver :: "nat \<Rightarrow> settlement \<times> nat \<Rightarrow> pstate \<Rightarrow> result" where
  "deliver k (Fulfils v, c) s = run k (Resolve c v) s"
| "deliver k (Rejects e, c) s = run k (Reject c e) s"
| "deliver k (Never, c) s = Some (Returns VUndefined, s)"

section \<open>Notions used in the statements about the promise class\<close>

text \<open>The root of the parent chain of \<open>p\<close>, when it is at most \<open>w\<close> instances away.\<close>

primrec root_of :: "nat \<Rightarrow> pstate \<Rightarrow> nat \<Rightarrow> nat option" where
  "root_of 0 s p = None"
| "root_of (Suc w) s p = (case parent (heap s p) of None \<Rightarrow> Some p | Some q \<Rightarrow> root_of w s q)"

text \<open>The state a call leaves, when it returns.\<close>

definition state_after :: "result \<Rightarrow> pstate option" where
  "state_after r = map_option snd r"

text \<open>
  A registration is one call \<open>then(onSuccess, onFail)\<close> with labelled user callbacks,
  either of which may be left out. \<open>then_all\<close> makes the calls in turn on the
  instance \<open>p\<close>.
\<close>

type_synonym labelled = "nat \<times> (jsval \<Rightarrow> outcome)"

type_synonym registration = "labelled option \<times> labelled option"

fun then_all :: "nat \<Rightarrow> nat \<Rightarrow> registration list \<Rightarrow> pstate \<Rightarrow> pstate option" where
  "then_all k p [] s = Some s"
| "then_all k p ((a, b) # regs) s =
     (case run k (Then p (map_option (\<lambda>(l, f). User l f) a) (map_option (\<lambda>(m, g). User m g) b)) s of
        None \<Rightarrow> None
      | Some (x, s') \<Rightarrow> then_all k p regs s')"

text \<open>
  The entries these registrations add to the two queues when the new instances get
  the addresses from \<open>a\<close> on.
\<close>

fun success_entries :: "nat \<Rightarrow> registration list \<Rightarrow> fn list" where
  "success_entries a [] = []"
| "success_entries a ((None, b) # regs) = ResolveOf a # success_entries (Suc a) regs"
| "success_entries a ((Some (l, f), b) # regs) = Wrapped (User l f) a # success_entries (Suc a) regs"

fun fail_entries :: "nat \<Rightarrow> registration list \<Rightarrow> fn list" where
  "fail_entries a [] = []"
| "fail_entries a ((b, None) # regs) = RejectOf a # fail_entries (Suc a) regs"
| "fail_entries a ((b, Some (m, g)) # regs) = Wrapped (User m g) a # fail_entries (Suc a) regs"

text \<open>The invocations of the failure callbacks of the registrations with the reason \<open>e\<close>.\<close>

definition failure_log :: "registration list \<Rightarrow> jsval \<Rightarrow> (nat \<times> jsval) list" where
  "failure_log regs e =
     concat (map (\<lambda>(a, b). case b of None \<Rightarrow> [] | Some (m, g) \<Rightarrow> [(m, e)]) regs)"

text \<open>
  An instance after \<open>_resolve\<close> (\<open>ok\<close>) or \<open>_reject\<close> has run on it with \<open>v\<close>, and the
  new instance of a registration after the failure entry of that registration was
  called with \<open>e\<close>.
\<close>

definition settle :: "bool \<Rightarrow> jsval \<Rightarrow> deferred \<Rightarrow> deferred" where
  "settle ok v d =
     d\<lparr>resolved := ok, rejected := \<not> ok, pending := False,
       process := (if ok then CallSuccess v else CallFail v), inert := True\<rparr>"

fun after_callback :: "outcome \<Rightarrow> deferred \<Rightarrow> deferred" where
  "after_callback (Returns v) d = (if isPromise v then d else settle True v d)"
| "after_callback (Throws x) d = settle False x d"
| "after_callback (ReturnsDeferred q) d = d"

fun after_fail :: "labelled option \<Rightarrow> jsval \<Rightarrow> deferred \<Rightarrow> deferred" where
  "after_fail None e d = settle False e d"
| "after_fail (Some (m, g)) e d = after_callback (g e) d"

text \<open>A callback result that is not an instance of this class.\<close>

fun plain :: "outcome \<Rightarrow> bool" where
  "plain (ReturnsDeferred r) = False"
| "plain _ = True"

text \<open>What a call hands back, the log and the public state of instance \<open>p\<close> after it.\<close>

definition observe :: "nat \<Rightarrow> result \<Rightarrow> (outcome \<times> (nat \<times> jsval) list \<times> bool \<times> bool \<times> bool \<times> proc) option" where
  "observe p r =
     map_option (\<lambda>(x, s). (x, log s, resolved (heap s p), rejected (heap s p), pending (heap s p),
       process (heap s p))) r"

text \<open>The public flags of instance \<open>p\<close>, what its \<open>_process\<close> is, and whether it is inert.\<close>

definition status :: "pstate \<Rightarrow> nat \<Rightarrow> bool \<times> bool \<times> bool \<times> proc \<times> bool" where
  "status s p =
     (resolved (heap s p), rejected (heap s p), pending (heap s p), process (heap s p), inert (heap s p))"

text \<open>A root without parent, newly constructed.\<close>

definition lone_root :: pstate where
  "lone_root = construct None (initial [])"

section \<open>Properties of the worker runtime\<close>

lemma emit_falsy: "\<not> truthy (currentRequestId w) \<Longrightarrow> emit payload w = w"
  by (simp add: emit_def)

lemma emits_falsy: "\<not> truthy (currentRequestId w) \<Longrightarrow> foldl (\<lambda>a p. emit p a) w es = w"
  by (induction es) (simp_all add: emit_falsy)

lemma events_respond: "filter is_event (sent (respond rid r w)) = filter is_event (sent w)"
  by (simp add: respond_def success_reply_def send_def is_event_def split: jsval.splits)

lemma events_reply_error: "filter is_event (sent (merge_sum (reply_error rid e w))) = filter is_event (sent w)"
  by (simp add: reply_error_def merge_sum_def send_def is_event_def split: sum.splits)

lemma foldl_snoc_map: "foldl (\<lambda>product name. product @ [(name, g name)]) acc ns = acc @ map (\<lambda>n. (n, g n)) ns"
  by (induction ns arbitrary: acc) simp_all

lemma convertError_Some:
  "own_props err = Some ps \<Longrightarrow> convertError tr err = Inr (VObj (map (\<lambda>(k, v). (k, get_own ps k)) ps))"
  by (simp add: convertError_def foldl_snoc_map comp_def case_prod_unfold)

lemma map_of_first: "distinct (map fst ps) \<Longrightarrow> (k, v) \<in> set ps \<Longrightarrow> get_own ps k = v"
  by (simp add: get_own_def)

lemma own_props_defined: "err \<noteq> VNull \<Longrightarrow> err \<noteq> VUndefined \<Longrightarrow> \<exists>ps. own_props err = Some ps"
  by (cases err) simp_all

lemma convertError_fields:
  assumes a: "own_props err = Some ps"
  shows "record_fields (convertError tr err) = map fst ps
        \<and> (\<exists>rec. convertError tr err = Inr (VObj rec)
              \<and> (\<forall>name \<in> set (map fst ps). map_of rec name = map_of ps name))
        \<and> (distinct (map fst ps) \<longrightarrow> convertError tr err = Inr (VObj ps))"
proof (intro conjI impI)
  show "record_fields (convertError tr err) = map fst ps"
    by (simp add: convertError_Some [OF a] record_fields_def comp_def case_prod_unfold)
  have m: "map_of (map (\<lambda>(k, v). (k, get_own ps k)) ps) name = map_of ps name" if "name \<in> set (map fst ps)" for name
  proof -
    have "map_of (map (\<lambda>(k, v). (k, get_own ps k)) ps) name = map_of (map (\<lambda>k. (k, get_own ps k)) (map fst ps)) name"
      by (simp add: comp_def case_prod_unfold)
    also have "\<dots> = Some (get_own ps name)"
      using that by (simp add: map_of_map_restrict del: map_map)
    also have "\<dots> = map_of ps name"
      using that by (auto simp: get_own_def map_of_eq_None_iff split: option.splits)
    finally show ?thesis .
  qed
  show "\<exists>rec. convertError tr err = Inr (VObj rec)
              \<and> (\<forall>name \<in> set (map fst ps). map_of rec name = map_of ps name)"
    using m by (simp add: convertError_Some [OF a])
  show "convertError tr err = Inr (VObj ps)" if "distinct (map fst ps)"
  proof -
    have "map (\<lambda>(k, v). (k, get_own ps k)) ps = map (\<lambda>p. p) ps"
      by (rule map_cong) (auto simp: map_of_first [OF that])
    then show ?thesis by (simp add: convertError_Some [OF a])
  qed
qed

text \<open>
  Claim C4, as amended. For every error value other than null and undefined,
  \<open>convertError\<close> returns a plain record with one field for each own property of the
  error, in the same order and with the same values; so \<open>name\<close>, \<open>message\<close>, \<open>stack\<close>
  and custom fields are in the record exactly when they are own properties of the
  error.
\<close>
theorem convertError_own_properties:
  "err \<noteq> VNull \<and> err \<noteq> VUndefined \<longrightarrow>
     (\<exists>ps. own_props err = Some ps
        \<and> record_fields (convertError tr err) = map fst ps
        \<and> (\<exists>rec. convertError tr err = Inr (VObj rec)
              \<and> (\<forall>name \<in> set (map fst ps). map_of rec name = map_of ps name))
        \<and> (distinct (map fst ps) \<longrightarrow> convertError tr err = Inr (VObj ps)))"
proof
  assume "err \<noteq> VNull \<and> err \<noteq> VUndefined"
  then obtain ps where a: "own_props err = Some ps" using own_props_defined by blast
  from convertError_fields [OF a] a
  show "\<exists>ps. own_props err = Some ps
        \<and> record_fields (convertError tr err) = map fst ps
        \<and> (\<exists>rec. convertError tr err = Inr (VObj rec)
              \<and> (\<forall>name \<in> set (map fst ps). map_of rec name = map_of ps name))
        \<and> (distinct (map fst ps) \<longrightarrow> convertError tr err = Inr (VObj ps))"
    by blast
qed

text \<open>
  Claim C4 as stated fails: the record made from \<open>new Error('boom')\<close> has no field
  \<open>name\<close>, since a standard error inherits its name from the prototype.
\<close>
theorem convertError_name_counterexample:
  "''name'' \<notin> set (record_fields (convertError [] (new_Error [] ''boom'')))"
  by (simp add: convertError_def new_Error_def record_fields_def get_own_def)

text \<open>The amended claim C4 at \<open>new Error('boom')\<close>.\<close>
theorem convertError_own_properties_witness:
  "new_Error [] ''boom'' \<noteq> VNull \<and> new_Error [] ''boom'' \<noteq> VUndefined
   \<and> own_props (new_Error [] ''boom'') = Some [(''stack'', VStr []), (''message'', VStr ''boom'')]
   \<and> record_fields (convertError [] (new_Error [] ''boom'')) = [''stack'', ''message'']
   \<and> convertError [] (new_Error [] ''boom'') = Inr (VObj [(''stack'', VStr []), (''message'', VStr ''boom'')])"
  using convertError_own_properties [of "new_Error [] ''boom''" "[]"]
  by (auto simp: new_Error_def)

text \<open>
  Claim C7 at the request \<open>{id: 1, method: 'toString', params: []}\<close> on a worker that
  registered nothing: \<open>toString\<close> is not a key of the registry, yet the lookup finds the
  inherited member, runs it and answers with a result instead of the error.
\<close>
theorem unknown_method_toString_served:
  "sent (on_message (Request 1 ''toString'' []) (initial_worker ev tr))
     = [Response (VNum 1) (VStr ''[object Function]'') VNull None]
   \<and> map_of (workerMethods (initial_worker ev tr)) ''toString'' = None"
  by (simp add: serve_def initial_worker_def lookup_method_def Object_prototype_def
      isPromise_def respond_def success_reply_def send_def)

text \<open>
  Claim C3 at a registered method that throws synchronously: one error response is
  sent, and \<open>currentRequestId\<close> still holds the id of the request afterwards.
\<close>
theorem sync_throw_keeps_currentRequestId:
  "currentRequestId (on_message (Request 7 ''boom'' [])
      (worker_with [(''boom'', \<lambda>params. ([], Thrown (new_Error [] ''x'')))])) = VNum 7
   \<and> sent (on_message (Request 7 ''boom'' [])
      (worker_with [(''boom'', \<lambda>params. ([], Thrown (new_Error [] ''x'')))]))
     = [Ready, Response (VNum 7) VNull (VObj [(''stack'', VStr []), (''message'', VStr ''x'')]) None]"
  by (simp add: worker_with_def register_def serve_def initial_worker_def lookup_method_def Object_prototype_def
      isPromise_def reply_error_def merge_sum_def convertError_def new_Error_def get_own_def send_def)

lemma settle_all_snoc:
  "s \<noteq> Never \<Longrightarrow> settle_all (w\<lparr>awaiting := awaiting w @ [(s, k)]\<rparr>)
     = run_continuation s k (settle_all w)"
  by (simp add: settle_all_def)

lemma exited_run_exit: "s \<noteq> Never \<Longrightarrow> exited (run_continuation s (ExitWith code) w) = Some code"
  by (cases s) (simp_all add: exit_worker_def)

text \<open>
  Claim C8. On the message \<open>__workerpool-terminate__\<close> the worker exits with code 0 at
  once when no termination handler is registered or when the handler returns a value
  that is not a promise; when the handler returns a promise, the worker has not exited
  when the listener returns, and it exits with code 0 when the promise settles, by
  fulfilment or by rejection.
\<close>
theorem terminate_exits_with_0:
  "(terminationHandler w = None \<longrightarrow>
      exited (on_message (Text TERMINATE_METHOD_ID) w) = Some 0)
   \<and> (\<forall>h r. terminationHandler w = Some h \<and> h (VNum 0) = Returned r \<and> \<not> isPromise r \<longrightarrow>
      exited (on_message (Text TERMINATE_METHOD_ID) w) = Some 0)
   \<and> (\<forall>h r. terminationHandler w = Some h \<and> h (VNum 0) = Returned r \<and> isPromise r \<longrightarrow>
      exited (on_message (Text TERMINATE_METHOD_ID) w) = exited w
      \<and> (settlement_of r \<noteq> Never \<longrightarrow>
           exited (settle_all (on_message (Text TERMINATE_METHOD_ID) w)) = Some 0))"
proof (intro conjI allI impI)
  show "exited (on_message (Text TERMINATE_METHOD_ID) w) = Some 0" if "terminationHandler w = None"
    using that by (simp add: cleanupAndExit_def exit_worker_def)
next
  fix h r assume "terminationHandler w = Some h \<and> h (VNum 0) = Returned r \<and> \<not> isPromise r"
  then show "exited (on_message (Text TERMINATE_METHOD_ID) w) = Some 0"
    by (simp add: cleanupAndExit_def exit_worker_def)
next
  fix h r assume a: "terminationHandler w = Some h \<and> h (VNum 0) = Returned r \<and> isPromise r"
  then have c: "cleanupAndExit 0 w = w\<lparr>awaiting := awaiting w @ [(settlement_of r, ExitWith 0)]\<rparr>"
    by (simp add: cleanupAndExit_def)
  then have e: "on_message (Text TERMINATE_METHOD_ID) w = w\<lparr>awaiting := awaiting w @ [(settlement_of r, ExitWith 0)]\<rparr>"
    by simp
  show "exited (on_message (Text TERMINATE_METHOD_ID) w) = exited w"
    by (simp add: c)
  show "exited (settle_all (on_message (Text TERMINATE_METHOD_ID) w)) = Some 0" if "settlement_of r \<noteq> Never"
    by (simp only: e settle_all_snoc [OF that] exited_run_exit [OF that])
qed













text \<open>
  Claim C10. \<open>emit(payload)\<close> sends the event record (with the transfer list for a
  Transfer) when \<open>currentRequestId\<close> is truthy and does nothing otherwise; with
  \<open>currentRequestId\<close> equal to 0 it does nothing, and serving a request whose id is 0
  adds no event to what was sent, whatever the method emits.
\<close>
theorem emit_needs_truthy_request_id:
  "emit payload w =
     (if truthy (currentRequestId w)
      then send (case payload of
                   VTransfer m t \<Rightarrow> Event (currentRequestId w) m (Some t)
                 | _ \<Rightarrow> Event (currentRequestId w) payload None) w
      else w)
   \<and> (currentRequestId w = VNum 0 \<longrightarrow> emit payload w = w)
   \<and> filter is_event (sent (on_message (Request 0 name params) w)) = filter is_event (sent w)"
proof (intro conjI impI)
  show "emit payload w =
     (if truthy (currentRequestId w)
      then send (case payload of
                   VTransfer m t \<Rightarrow> Event (currentRequestId w) m (Some t)
                 | _ \<Rightarrow> Event (currentRequestId w) payload None) w
      else w)"
    by (simp add: emit_def split: jsval.splits)
  show "emit payload w = w" if "currentRequestId w = VNum 0"
    using that by (simp add: emit_def)
  have z: "\<And>es. foldl (\<lambda>a p. emit p a) (w\<lparr>currentRequestId := VNum 0\<rparr>) es = w\<lparr>currentRequestId := VNum 0\<rparr>"
    by (rule emits_falsy) simp
  show "filter is_event (sent (on_message (Request 0 name params) w)) = filter is_event (sent w)"
    by (simp add: serve_def Let_def z events_respond events_reply_error
        split: option.splits completion.splits)
qed

text \<open>Claim C10 for a method that emits one payload while it serves request 0.\<close>
theorem emit_needs_truthy_request_id_witness:
  "currentRequestId ((worker_with [])\<lparr>currentRequestId := VNum 0\<rparr>) = VNum 0
   \<and> emit (VStr ''half'') ((worker_with [])\<lparr>currentRequestId := VNum 0\<rparr>)
       = (worker_with [])\<lparr>currentRequestId := VNum 0\<rparr>
   \<and> filter is_event (sent (on_message (Request 0 ''progress'' [])
        (worker_with [(''progress'', \<lambda>params. ([VStr ''half''], Returned (VStr ''done'')))]))) = []"
  using emit_needs_truthy_request_id [of "VStr ''half''" "(worker_with [])\<lparr>currentRequestId := VNum 0\<rparr>"]
    emit_needs_truthy_request_id [of VNull
      "worker_with [(''progress'', \<lambda>params. ([VStr ''half''], Returned (VStr ''done'')))]" "''progress''" "[]"]
  by (simp add: worker_with_def register_def initial_worker_def send_def is_event_def)

text \<open>
  Claim C8 on a worker without handler, with a handler returning a thenable that has
  no \<open>catch\<close>, and with a handler returning a promise that rejects.
\<close>
theorem terminate_exits_with_0_witness:
  "terminationHandler (worker_with []) = None
   \<and> exited (on_message (Text ''__workerpool-terminate__'') (worker_with [])) = Some 0
   \<and> isPromise (VThenable True (Rejects VNull))
   \<and> \<not> isPromise (VThenable False (Fulfils VNull))
   \<and> exited (on_message (Text ''__workerpool-terminate__'')
        ((worker_with [])\<lparr>terminationHandler := Some (\<lambda>code. Returned (VThenable False (Fulfils VNull)))\<rparr>)) = Some 0
   \<and> exited (on_message (Text ''__workerpool-terminate__'')
        ((worker_with [])\<lparr>terminationHandler := Some (\<lambda>code. Returned (VThenable True (Rejects VNull)))\<rparr>)) = None
   \<and> exited (settle_all (on_message (Text ''__workerpool-terminate__'')
        ((worker_with [])\<lparr>terminationHandler := Some (\<lambda>code. Returned (VThenable True (Rejects VNull)))\<rparr>))) = Some 0"
  using terminate_exits_with_0 [of "worker_with []"]
    terminate_exits_with_0 [of "(worker_with [])\<lparr>terminationHandler := Some (\<lambda>code. Returned (VThenable False (Fulfils VNull)))\<rparr>"]
    terminate_exits_with_0 [of "(worker_with [])\<lparr>terminationHandler := Some (\<lambda>code. Returned (VThenable True (Rejects VNull)))\<rparr>"]
  by (simp add: worker_with_def register_def initial_worker_def send_def isPromise_def TERMINATE_METHOD_ID_def)

lemma last_respond: "last (sent (respond rid r w)) = success_reply rid r"
  by (simp add: respond_def send_def)





section \<open>Properties of the promise class\<close>

text \<open>
  Claim C1 at a deferred without parent on which \<open>timeout(100)\<close> was called and whose
  timer fires while it is pending: the callback's \<open>this\<close> is the host's timer object,
  which has no \<open>_reject\<close>, so the call throws a TypeError that nobody handles and
  the deferred stays pending, with no Timeout error.
\<close>
theorem timer_expiry_leaves_deferred_pending:
  "(case Promise_timeout 1 3 0 (Some 100) (construct None (initial [])) of
      None \<Rightarrow> False
    | Some (x, s1) \<Rightarrow>
        (case fire_timer 3 0 s1 of
           None \<Rightarrow> False
         | Some s2 \<Rightarrow>
             parent (heap s1 0) = None \<and> armed (timers s1 ! 0) \<and> pending (heap s1 0)
             \<and> pending (heap s2 0) \<and> \<not> rejected (heap s2 0) \<and> process (heap s2 0) = Queue
             \<and> unhandled s2 = [new_Error [] ''this._reject is not a function'']))"
  by (simp add: Promise_then_def Promise_process_def normally_def returning_def update_def construct_def
      fresh_def initial_def clearTimeout_def Let_def fire_timer_def timeout_callback_def numeral_3_eq_3)

lemma state_after_returning [simp]: "state_after (returning x r) = state_after r"
  by (auto simp: state_after_def returning_def normally_def split: option.splits outcome.splits)

lemma cancel_is_reject_root:
  "root_of w s p = Some r \<Longrightarrow>
   state_after (Promise_cancel w k p s) = state_after (run k (Reject r (CancellationError (stack_text s))) s)"
  by (induction w arbitrary: p) (auto split: option.splits)

lemma reject_inert: "inert (heap s r) \<Longrightarrow> run (Suc k) (Reject r e) s = Some (Returns VUndefined, s)"
  by (simp add: Promise_reject_def)

lemma cancel_returns:
  "root_of w s p = Some r \<Longrightarrow> run k (Reject r (CancellationError (stack_text s))) s = Some (y, s') \<Longrightarrow>
   \<forall>e. y \<noteq> Throws e \<Longrightarrow> Promise_cancel w k p s = Some (ReturnsDeferred p, s')"
proof (induction w arbitrary: p)
  case 0
  then show ?case by simp
next
  case (Suc w)
  show ?case
  proof (cases "parent (heap s p)")
    case None
    with Suc.prems show ?thesis
      by (cases y) (auto simp: returning_def normally_def)
  next
    case (Some q)
    with Suc.prems have "root_of w s q = Some r" by simp
    from Suc.IH [OF this Suc.prems(2,3)] Some show ?thesis
      by (simp add: returning_def normally_def)
  qed
qed

lemma run_user: "run (Suc k) (CallFn (User l f) v) s = Some (f v, s\<lparr>log := log s @ [(l, v)]\<rparr>)"
  by simp

lemma resolve_untouched:
  "\<not> inert (heap s c) \<Longrightarrow> onSuccess (heap s c) = [] \<Longrightarrow>
   run (Suc (Suc k)) (Resolve c v) s = Some (ReturnsDeferred c, update c (settle True v) s)"
  by (simp add: Promise_resolve_def normally_def update_def Let_def settle_def)

lemma reject_untouched:
  "\<not> inert (heap s c) \<Longrightarrow> onFail (heap s c) = [] \<Longrightarrow>
   run (Suc (Suc k)) (Reject c v) s = Some (ReturnsDeferred c, update c (settle False v) s)"
  by (simp add: Promise_reject_def normally_def update_def Let_def settle_def)

text \<open>The closure of \<open>_then\<close> around a user callback, called for a new instance.\<close>

lemma wrapped_user_call:
  assumes "\<not> inert (heap s c)" "onSuccess (heap s c) = []" "onFail (heap s c) = []" "plain (f v)"
  shows "\<exists>s'. run (Suc (Suc (Suc k))) (CallFn (Wrapped (User l f) c) v) s = Some (Returns VUndefined, s')
           \<and> log s' = log s @ [(l, v)]
           \<and> heap s' = (heap s)(c := after_callback (f v) (heap s c))"
proof (cases "f v")
  case (Returns res)
  show ?thesis
  proof (cases "isPromise res")
    case True
    with Returns show ?thesis
      by (simp del: run.simps add: run.simps(2) [of "Suc (Suc k)"] run_user)
  next
    case False
    have "run (Suc (Suc k)) (Resolve c res) (s\<lparr>log := log s @ [(l, v)]\<rparr>)
       = Some (ReturnsDeferred c, update c (settle True res) (s\<lparr>log := log s @ [(l, v)]\<rparr>))"
      by (rule resolve_untouched) (use assms in simp_all)
    with Returns False show ?thesis
      by (simp del: run.simps add: run.simps(2) [of "Suc (Suc k)"] run_user update_def)
  qed
next
  case (ReturnsDeferred r)
  with assms show ?thesis by simp
next
  case (Throws e)
  have "run (Suc (Suc k)) (Reject c e) (s\<lparr>log := log s @ [(l, v)]\<rparr>)
       = Some (ReturnsDeferred c, update c (settle False e) (s\<lparr>log := log s @ [(l, v)]\<rparr>))"
    by (rule reject_untouched) (use assms in simp_all)
  with Throws show ?thesis
    by (simp del: run.simps add: run.simps(2) [of "Suc (Suc k)"] run_user update_def returning_def normally_def)
qed

lemma fail_entry_call:
  assumes "\<not> inert (heap s c)" "onSuccess (heap s c) = []" "onFail (heap s c) = []"
    and "\<forall>m g. b = Some (m, g) \<longrightarrow> plain (g e)"
  shows "\<exists>x s'. run (Suc (Suc (Suc k))) (CallFn (hd (fail_entries c [(a, b)])) e) s = Some (x, s')
           \<and> (\<forall>e'. x \<noteq> Throws e')
           \<and> log s' = log s @ failure_log [(a, b)] e
           \<and> heap s' = (heap s)(c := after_fail b e (heap s c))"
proof (cases b)
  case None
  have "run (Suc (Suc k)) (Reject c e) s = Some (ReturnsDeferred c, update c (settle False e) s)"
    by (rule reject_untouched) (use assms in simp_all)
  with None show ?thesis
    by (simp del: run.simps add: run.simps(2) [of "Suc (Suc k)"] failure_log_def update_def)
next
  case (Some mg)
  obtain m g where mg: "mg = (m, g)" by (cases mg)
  with Some assms(4) have "plain (g e)" by simp
  from wrapped_user_call [where s = s and c = c and f = g and v = e and k = k and l = m] assms(1-3) this
  show ?thesis using Some mg by (auto simp: failure_log_def)
qed

lemma fail_entries_Cons: "fail_entries c ((a, b) # regs) = hd (fail_entries c [(a, b)]) # fail_entries (Suc c) regs"
  by (cases b) auto

lemma failure_log_Cons: "failure_log ((a, b) # regs) e = failure_log [(a, b)] e @ failure_log regs e"
  by (simp add: failure_log_def)

lemma forEach_fail_entries:
  assumes "\<forall>c. a \<le> c \<and> c < a + length regs \<longrightarrow>
             \<not> inert (heap s c) \<and> onSuccess (heap s c) = [] \<and> onFail (heap s c) = []"
    and "\<forall>(x, b) \<in> set regs. \<forall>m g. b = Some (m, g) \<longrightarrow> plain (g e)"
    and "length regs + 4 \<le> K"
  shows "\<exists>s'. run K (ForEach (fail_entries a regs) e) s = Some (Returns VUndefined, s')
           \<and> log s' = log s @ failure_log regs e
           \<and> (\<forall>c. c < a \<or> a + length regs \<le> c \<longrightarrow> heap s' c = heap s c)
           \<and> (\<forall>n < length regs. heap s' (a + n) = after_fail (snd (regs ! n)) e (heap s (a + n)))"
  using assms
proof (induction regs arbitrary: a s K)
  case Nil
  then obtain k where "K = Suc k" by (cases K) auto
  then show ?case by (simp add: failure_log_def)
next
  case (Cons reg regs)
  obtain x b where reg: "reg = (x, b)" by (cases reg)
  from Cons.prems(3) obtain k where K: "K = Suc (Suc (Suc (Suc k)))" and k: "length regs + 4 \<le> Suc (Suc (Suc k))"
    by (cases K; simp; cases "K - 1"; simp; cases "K - 2"; simp; cases "K - 3"; simp)
  have h: "\<not> inert (heap s a)" "onSuccess (heap s a) = []" "onFail (heap s a) = []"
    "\<forall>m g. b = Some (m, g) \<longrightarrow> plain (g e)"
    using Cons.prems(1,2) reg by auto
  from fail_entry_call [OF h, of k x] obtain y s1 where
    s1: "run (Suc (Suc (Suc k))) (CallFn (hd (fail_entries a [(x, b)])) e) s = Some (y, s1)"
    "\<forall>e'. y \<noteq> Throws e'"
    "log s1 = log s @ failure_log [(x, b)] e" "heap s1 = (heap s)(a := after_fail b e (heap s a))"
    by blast
  have p1: "\<forall>c. Suc a \<le> c \<and> c < Suc a + length regs \<longrightarrow>
             \<not> inert (heap s1 c) \<and> onSuccess (heap s1 c) = [] \<and> onFail (heap s1 c) = []"
    using Cons.prems(1) s1(4) by auto
  have p2: "\<forall>(x, b) \<in> set regs. \<forall>m g. b = Some (m, g) \<longrightarrow> plain (g e)" using Cons.prems(2) by auto
  from Cons.IH [OF p1 p2 k] obtain s' where
    s': "run (Suc (Suc (Suc k))) (ForEach (fail_entries (Suc a) regs) e) s1 = Some (Returns VUndefined, s')"
    "log s' = log s1 @ failure_log regs e"
    "\<forall>c. c < Suc a \<or> Suc a + length regs \<le> c \<longrightarrow> heap s' c = heap s1 c"
    "\<forall>n < length regs. heap s' (Suc a + n) = after_fail (snd (regs ! n)) e (heap s1 (Suc a + n))"
    by blast
  have fe: "fail_entries a (reg # regs) = hd (fail_entries a [(x, b)]) # fail_entries (Suc a) regs"
    unfolding reg by (rule fail_entries_Cons)
  have "run K (ForEach (fail_entries a (reg # regs)) e) s = Some (Returns VUndefined, s')"
    unfolding K fe using s1(1,2) s'(1)
    by (cases y) (simp_all del: run.simps add: run.simps(2) [of "Suc (Suc (Suc k))"] normally_def)
  moreover have "log s' = log s @ failure_log (reg # regs) e"
    using s1(3) s'(2) reg failure_log_Cons [of x b regs e] by simp
  moreover have "\<forall>c. c < a \<or> a + length (reg # regs) \<le> c \<longrightarrow> heap s' c = heap s c"
    using s1(4) s'(3) by auto
  moreover have "\<forall>n < length (reg # regs). heap s' (a + n) = after_fail (snd ((reg # regs) ! n)) e (heap s (a + n))"
  proof (intro allI impI)
    fix n assume n: "n < length (reg # regs)"
    show "heap s' (a + n) = after_fail (snd ((reg # regs) ! n)) e (heap s (a + n))"
    proof (cases n)
      case 0
      then show ?thesis using s'(3) s1(4) reg by simp
    next
      case (Suc n')
      with n s'(4) s1(4) show ?thesis by simp
    qed
  qed
  ultimately show ?case by blast
qed

lemma then_pending:
  assumes "r < allocated s" "process (heap s r) = Queue"
  shows "run (Suc (Suc k)) (Then r (map_option (\<lambda>(l, f). User l f) a) (map_option (\<lambda>(m, g). User m g) b)) s
     = Some (ReturnsDeferred (allocated s),
         update r (\<lambda>d. d\<lparr>onSuccess := onSuccess d @ success_entries (allocated s) [(a, b)],
                          onFail := onFail d @ fail_entries (allocated s) [(a, b)]\<rparr>) (construct (Some r) s))"
  using assms
  by (cases a; cases b)
     (auto simp: Promise_then_def Promise_process_def construct_def returning_def normally_def Let_def)

lemma success_entries_Cons:
  "success_entries c ((a, b) # regs) = success_entries c [(a, b)] @ success_entries (Suc c) regs"
  by (cases a) auto

lemma fail_entries_Cons':
  "fail_entries c ((a, b) # regs) = fail_entries c [(a, b)] @ fail_entries (Suc c) regs"
  by (cases b) auto

lemma then_all_pending:
  assumes "r < allocated s" "process (heap s r) = Queue"
  shows "\<exists>s1. then_all (Suc (Suc k)) r regs s = Some s1
     \<and> heap s1 r = (heap s r)\<lparr>onSuccess := onSuccess (heap s r) @ success_entries (allocated s) regs,
                               onFail := onFail (heap s r) @ fail_entries (allocated s) regs\<rparr>
     \<and> (\<forall>c. allocated s \<le> c \<and> c < allocated s + length regs \<longrightarrow> heap s1 c = fresh (Some r))
     \<and> (\<forall>c. c < allocated s \<and> c \<noteq> r \<longrightarrow> heap s1 c = heap s c)
     \<and> log s1 = log s \<and> stack_text s1 = stack_text s"
  using assms
proof (induction regs arbitrary: s)
  case Nil
  then show ?case by auto
next
  case (Cons reg regs)
  obtain a b where reg: "reg = (a, b)" by (cases reg)
  define s' where "s' = update r (\<lambda>d. d\<lparr>onSuccess := onSuccess d @ success_entries (allocated s) [(a, b)],
                          onFail := onFail d @ fail_entries (allocated s) [(a, b)]\<rparr>) (construct (Some r) s)"
  have t: "run (Suc (Suc k)) (Then r (map_option (\<lambda>(l, f). User l f) a) (map_option (\<lambda>(m, g). User m g) b)) s
      = Some (ReturnsDeferred (allocated s), s')"
    unfolding s'_def by (rule then_pending [OF Cons.prems])
  have a': "allocated s' = Suc (allocated s)" by (simp add: s'_def update_def construct_def)
  have hr: "heap s' r = (heap s r)\<lparr>onSuccess := onSuccess (heap s r) @ success_entries (allocated s) [(a, b)],
                          onFail := onFail (heap s r) @ fail_entries (allocated s) [(a, b)]\<rparr>"
    using Cons.prems(1) by (simp add: s'_def update_def construct_def)
  have hc: "heap s' (allocated s) = fresh (Some r)"
    using Cons.prems(1) by (simp add: s'_def update_def construct_def)
  have ho: "\<forall>c. c < allocated s \<and> c \<noteq> r \<longrightarrow> heap s' c = heap s c"
    by (simp add: s'_def update_def construct_def)
  have lg: "log s' = log s" "stack_text s' = stack_text s" by (simp_all add: s'_def update_def construct_def)
  have p1: "r < allocated s'" using Cons.prems(1) a' by simp
  have p2: "process (heap s' r) = Queue" using Cons.prems(2) hr by simp
  from Cons.IH [OF p1 p2] obtain s1 where
    s1: "then_all (Suc (Suc k)) r regs s' = Some s1"
    "heap s1 r = (heap s' r)\<lparr>onSuccess := onSuccess (heap s' r) @ success_entries (allocated s') regs,
                               onFail := onFail (heap s' r) @ fail_entries (allocated s') regs\<rparr>"
    "\<forall>c. allocated s' \<le> c \<and> c < allocated s' + length regs \<longrightarrow> heap s1 c = fresh (Some r)"
    "\<forall>c. c < allocated s' \<and> c \<noteq> r \<longrightarrow> heap s1 c = heap s' c"
    "log s1 = log s'" "stack_text s1 = stack_text s'"
    by blast
  have "then_all (Suc (Suc k)) r (reg # regs) s = Some s1"
    unfolding reg using t s1(1) by (simp del: run.simps)
  moreover have "heap s1 r = (heap s r)\<lparr>onSuccess := onSuccess (heap s r) @ success_entries (allocated s) (reg # regs),
                               onFail := onFail (heap s r) @ fail_entries (allocated s) (reg # regs)\<rparr>"
    unfolding reg success_entries_Cons [of _ a b regs] fail_entries_Cons' [of _ a b regs]
    using s1(2) hr a' by simp
  moreover have "\<forall>c. allocated s \<le> c \<and> c < allocated s + length (reg # regs) \<longrightarrow> heap s1 c = fresh (Some r)"
  proof (intro allI impI)
    fix c assume c: "allocated s \<le> c \<and> c < allocated s + length (reg # regs)"
    show "heap s1 c = fresh (Some r)"
    proof (cases "c = allocated s")
      case True
      with s1(4) a' Cons.prems(1) hc show ?thesis by auto
    next
      case False
      with c a' s1(3) show ?thesis by auto
    qed
  qed
  moreover have "\<forall>c. c < allocated s \<and> c \<noteq> r \<longrightarrow> heap s1 c = heap s c"
    using s1(4) ho a' by auto
  moreover have "log s1 = log s \<and> stack_text s1 = stack_text s" using s1(5,6) lg by simp
  ultimately show ?case by blast
qed

lemma reject_star:
  assumes r: "r < a" "\<not> inert (heap s r)" "onFail (heap s r) = fail_entries a regs"
    and ch: "\<forall>c. a \<le> c \<and> c < a + length regs \<longrightarrow>
             \<not> inert (heap s c) \<and> onSuccess (heap s c) = [] \<and> onFail (heap s c) = []"
    and pl: "\<forall>(x, b) \<in> set regs. \<forall>m g. b = Some (m, g) \<longrightarrow> plain (g e)"
    and K: "length regs + 5 \<le> K"
  shows "\<exists>s'. run K (Reject r e) s = Some (ReturnsDeferred r, s')
           \<and> heap s' r = settle False e (heap s r)
           \<and> log s' = log s @ failure_log regs e
           \<and> (\<forall>n < length regs. heap s' (a + n) = after_fail (snd (regs ! n)) e (heap s (a + n)))"
proof -
  from K obtain k where Kk: "K = Suc k" and k: "length regs + 4 \<le> k" by (cases K) auto
  define s1 where "s1 = update r (\<lambda>d. d\<lparr>resolved := False, rejected := True, pending := False\<rparr>) s"
  have ch1: "\<forall>c. a \<le> c \<and> c < a + length regs \<longrightarrow>
             \<not> inert (heap s1 c) \<and> onSuccess (heap s1 c) = [] \<and> onFail (heap s1 c) = []"
    using ch r(1) by (simp add: s1_def update_def)
  from forEach_fail_entries [OF ch1 pl k] obtain s2 where
    s2: "run k (ForEach (fail_entries a regs) e) s1 = Some (Returns VUndefined, s2)"
    "log s2 = log s1 @ failure_log regs e"
    "\<forall>c. c < a \<or> a + length regs \<le> c \<longrightarrow> heap s2 c = heap s1 c"
    "\<forall>n < length regs. heap s2 (a + n) = after_fail (snd (regs ! n)) e (heap s1 (a + n))"
    by blast
  define s' where "s' = update r (\<lambda>d. d\<lparr>process := CallFail e, inert := True\<rparr>) s2"
  have q1: "onFail (heap s1 r) = fail_entries a regs" using r(3) by (simp add: s1_def update_def)
  have "run K (Reject r e) s = Some (ReturnsDeferred r, s')"
    unfolding Kk s'_def using r(2) s2(1) q1
    by (simp del: run.simps add: run.simps(2) [of k] Promise_reject_def normally_def Let_def s1_def [symmetric])
  moreover have "heap s' r = settle False e (heap s r)"
    using s2(3) r(1) by (simp add: s'_def s1_def update_def settle_def)
  moreover have "log s' = log s @ failure_log regs e"
    using s2(2) by (simp add: s'_def s1_def update_def)
  moreover have "\<forall>n < length regs. heap s' (a + n) = after_fail (snd (regs ! n)) e (heap s (a + n))"
    using s2(4) r(1) by (simp add: s'_def s1_def update_def)
  ultimately show ?thesis by blast
qed

lemma status_settle:
  "heap s p = settle ok v d \<Longrightarrow>
   status s p = (ok, \<not> ok, False, if ok then CallSuccess v else CallFail v, True)"
  by (simp add: status_def settle_def)

lemma status_after_fail:
  assumes "heap s p = after_fail b e (fresh par)"
  shows "(b = None \<longrightarrow> status s p = (False, True, False, CallFail e, True))
       \<and> (\<forall>m g v. b = Some (m, g) \<and> g e = Returns v \<and> \<not> isPromise v \<longrightarrow>
             status s p = (True, False, False, CallSuccess v, True))
       \<and> (\<forall>m g x. b = Some (m, g) \<and> g e = Throws x \<longrightarrow>
             status s p = (False, True, False, CallFail x, True))
       \<and> (\<forall>m g v. b = Some (m, g) \<and> g e = Returns v \<and> isPromise v \<longrightarrow>
             status s p = (False, False, True, Queue, False))"
  using assms by (auto simp: status_def settle_def fresh_def)

lemma cancel_star:
  assumes pl: "\<forall>(a, b) \<in> set regs. \<forall>m g. b = Some (m, g) \<longrightarrow> plain (g (CancellationError (stack_text s)))"
    and i: "i \<le> length regs"
  shows "\<exists>s1 s'. then_all (Suc (Suc j)) (allocated s) regs (construct None s) = Some s1
         \<and> status s1 (allocated s) = (False, False, True, Queue, False)
         \<and> Promise_cancel (Suc (Suc w)) (length regs + 5 + k) (allocated s + i) s1
             = Some (ReturnsDeferred (allocated s + i), s')
         \<and> status s' (allocated s) = (False, True, False, CallFail (CancellationError (stack_text s)), True)
         \<and> log s' = log s @ failure_log regs (CancellationError (stack_text s))
         \<and> (\<forall>n < length regs.
               heap s' (Suc (allocated s) + n)
                 = after_fail (snd (regs ! n)) (CancellationError (stack_text s)) (fresh (Some (allocated s))))"
proof -
  define r where "r = allocated s"
  define s0 where "s0 = construct None s"
  define e where "e = CancellationError (stack_text s)"
  have a0: "allocated s0 = Suc r" and l0: "log s0 = log s" "stack_text s0 = stack_text s"
    and h0: "heap s0 r = fresh None"
    by (simp_all add: s0_def r_def construct_def)
  have "r < allocated s0" "process (heap s0 r) = Queue"
    by (simp_all add: a0 h0 fresh_def)
  from then_all_pending [OF this, of j regs] obtain s1 where
    s1: "then_all (Suc (Suc j)) r regs s0 = Some s1"
    "heap s1 r = (heap s0 r)\<lparr>onSuccess := onSuccess (heap s0 r) @ success_entries (allocated s0) regs,
                               onFail := onFail (heap s0 r) @ fail_entries (allocated s0) regs\<rparr>"
    "\<forall>c. allocated s0 \<le> c \<and> c < allocated s0 + length regs \<longrightarrow> heap s1 c = fresh (Some r)"
    "log s1 = log s0" "stack_text s1 = stack_text s0"
    by blast
  have st1: "status s1 r = (False, False, True, Queue, False)"
    using s1(2) h0 by (simp add: status_def fresh_def)
  have r1: "r < Suc r" "\<not> inert (heap s1 r)" "onFail (heap s1 r) = fail_entries (Suc r) regs"
    using s1(2) h0 a0 by (simp_all add: fresh_def)
  have ch: "\<forall>c. Suc r \<le> c \<and> c < Suc r + length regs \<longrightarrow>
             \<not> inert (heap s1 c) \<and> onSuccess (heap s1 c) = [] \<and> onFail (heap s1 c) = []"
    using s1(3) a0 by (simp add: fresh_def)
  have pl': "\<forall>(x, b) \<in> set regs. \<forall>m g. b = Some (m, g) \<longrightarrow> plain (g e)"
    using pl unfolding e_def by auto
  have K: "length regs + 5 \<le> length regs + 5 + k" by simp
  from reject_star [OF r1 ch pl' K] obtain s' where
    s': "run (length regs + 5 + k) (Reject r e) s1 = Some (ReturnsDeferred r, s')"
    "heap s' r = settle False e (heap s1 r)"
    "log s' = log s1 @ failure_log regs e"
    "\<forall>n < length regs. heap s' (Suc r + n) = after_fail (snd (regs ! n)) e (heap s1 (Suc r + n))"
    by blast
  have root: "root_of (Suc (Suc w)) s1 (r + i) = Some r"
  proof (cases i)
    case 0
    with s1(2) h0 show ?thesis by (simp add: fresh_def)
  next
    case (Suc i')
    with i s1(3) a0 have "heap s1 (r + i) = fresh (Some r)" by simp
    moreover have "parent (heap s1 r) = None" using s1(2) h0 by (simp add: fresh_def)
    ultimately show ?thesis by (simp add: fresh_def)
  qed
  have e1: "CancellationError (stack_text s1) = e" using s1(5) l0 by (simp add: e_def)
  have c: "Promise_cancel (Suc (Suc w)) (length regs + 5 + k) (r + i) s1 = Some (ReturnsDeferred (r + i), s')"
  proof (rule cancel_returns [OF root])
    show "run (length regs + 5 + k) (Reject r (CancellationError (stack_text s1))) s1
        = Some (ReturnsDeferred r, s')"
      unfolding e1 by (rule s'(1))
    show "\<forall>x. ReturnsDeferred r \<noteq> Throws x" by simp
  qed
  have st: "status s' r = (False, True, False, CallFail e, True)"
    using status_settle [OF s'(2)] by simp
  have chs: "\<forall>n < length regs. heap s' (Suc r + n) = after_fail (snd (regs ! n)) e (fresh (Some r))"
    using s'(4) s1(3) a0 by simp
  have lg: "log s' = log s @ failure_log regs e" using s'(3) s1(4) l0 by simp
  show ?thesis
    using s1(1) st1 c st lg chs unfolding r_def s0_def e_def by blast
qed

text \<open>
  Claim C6, as amended. \<open>cancel\<close> on any deferred leaves the state that \<open>_reject\<close> of
  the root of its parent chain with a new CancellationError leaves, and changes nothing
  when the root has completed a settlement. On a new root whose callbacks were
  registered by \<open>then\<close> (user callbacks that hand back no instance of the class),
  \<open>cancel\<close> on the root or on any of the children made by \<open>then\<close> returns, leaves the
  root rejected with the CancellationError and has run the failure callbacks, in the
  order of registration, with that error. A child registered without failure callback
  ends rejected with the CancellationError; a child registered with one ends as that
  callback decides: resolved with the value it returns, rejected with what it throws,
  pending when it returns a promise.
\<close>
theorem cancel_rejects_pending_root:
  "(root_of w s p = Some r \<longrightarrow>
      state_after (Promise_cancel w k p s)
        = state_after (run k (Reject r (CancellationError (stack_text s))) s)
      \<and> (inert (heap s r) \<longrightarrow> state_after (Promise_cancel w (Suc k) p s) = Some s))
   \<and> ((\<forall>(a, b) \<in> set regs. \<forall>m g. b = Some (m, g) \<longrightarrow> plain (g (CancellationError (stack_text s))))
        \<and> i \<le> length regs \<longrightarrow>
      (\<exists>s1 s'. then_all (Suc (Suc j)) (allocated s) regs (construct None s) = Some s1
         \<and> status s1 (allocated s) = (False, False, True, Queue, False)
         \<and> Promise_cancel (Suc (Suc w)) (length regs + 5 + k) (allocated s + i) s1
             = Some (ReturnsDeferred (allocated s + i), s')
         \<and> status s' (allocated s) = (False, True, False, CallFail (CancellationError (stack_text s)), True)
         \<and> log s' = log s @ failure_log regs (CancellationError (stack_text s))
         \<and> (\<forall>n < length regs.
               (snd (regs ! n) = None \<longrightarrow>
                  status s' (Suc (allocated s) + n)
                    = (False, True, False, CallFail (CancellationError (stack_text s)), True))
               \<and> (\<forall>m g v. snd (regs ! n) = Some (m, g)
                      \<and> g (CancellationError (stack_text s)) = Returns v \<and> \<not> isPromise v \<longrightarrow>
                    status s' (Suc (allocated s) + n) = (True, False, False, CallSuccess v, True))
               \<and> (\<forall>m g x. snd (regs ! n) = Some (m, g)
                      \<and> g (CancellationError (stack_text s)) = Throws x \<longrightarrow>
                    status s' (Suc (allocated s) + n) = (False, True, False, CallFail x, True))
               \<and> (\<forall>m g v. snd (regs ! n) = Some (m, g)
                      \<and> g (CancellationError (stack_text s)) = Returns v \<and> isPromise v \<longrightarrow>
                    status s' (Suc (allocated s) + n) = (False, False, True, Queue, False)))))"
proof (intro conjI impI)
  assume r: "root_of w s p = Some r"
  show "state_after (Promise_cancel w k p s)
        = state_after (run k (Reject r (CancellationError (stack_text s))) s)"
    by (rule cancel_is_reject_root [OF r])
  show "state_after (Promise_cancel w (Suc k) p s) = Some s" if "inert (heap s r)"
  proof -
    have "state_after (Promise_cancel w (Suc k) p s)
        = state_after (run (Suc k) (Reject r (CancellationError (stack_text s))) s)"
      by (rule cancel_is_reject_root [OF r])
    also have "\<dots> = Some s"
      by (simp only: reject_inert [OF that] state_after_def option.map snd_conv)
    finally show ?thesis .
  qed
next
  let ?e = "CancellationError (stack_text s)"
  assume a: "(\<forall>(a, b) \<in> set regs. \<forall>m g. b = Some (m, g) \<longrightarrow> plain (g ?e)) \<and> i \<le> length regs"
  from cancel_star [of regs s i j w k] a obtain s1 s' where
    f: "then_all (Suc (Suc j)) (allocated s) regs (construct None s) = Some s1"
    "status s1 (allocated s) = (False, False, True, Queue, False)"
    "Promise_cancel (Suc (Suc w)) (length regs + 5 + k) (allocated s + i) s1
       = Some (ReturnsDeferred (allocated s + i), s')"
    "status s' (allocated s) = (False, True, False, CallFail ?e, True)"
    "log s' = log s @ failure_log regs ?e"
    "\<forall>n < length regs. heap s' (Suc (allocated s) + n)
        = after_fail (snd (regs ! n)) ?e (fresh (Some (allocated s)))"
    by blast
  have "\<forall>n < length regs.
               (snd (regs ! n) = None \<longrightarrow>
                  status s' (Suc (allocated s) + n) = (False, True, False, CallFail ?e, True))
               \<and> (\<forall>m g v. snd (regs ! n) = Some (m, g) \<and> g ?e = Returns v \<and> \<not> isPromise v \<longrightarrow>
                    status s' (Suc (allocated s) + n) = (True, False, False, CallSuccess v, True))
               \<and> (\<forall>m g x. snd (regs ! n) = Some (m, g) \<and> g ?e = Throws x \<longrightarrow>
                    status s' (Suc (allocated s) + n) = (False, True, False, CallFail x, True))
               \<and> (\<forall>m g v. snd (regs ! n) = Some (m, g) \<and> g ?e = Returns v \<and> isPromise v \<longrightarrow>
                    status s' (Suc (allocated s) + n) = (False, False, True, Queue, False))"
    using f(6) status_after_fail by blast
  with f(1-5)
  show "\<exists>s1 s'. then_all (Suc (Suc j)) (allocated s) regs (construct None s) = Some s1
         \<and> status s1 (allocated s) = (False, False, True, Queue, False)
         \<and> Promise_cancel (Suc (Suc w)) (length regs + 5 + k) (allocated s + i) s1
             = Some (ReturnsDeferred (allocated s + i), s')
         \<and> status s' (allocated s) = (False, True, False, CallFail ?e, True)
         \<and> log s' = log s @ failure_log regs ?e
         \<and> (\<forall>n < length regs.
               (snd (regs ! n) = None \<longrightarrow>
                  status s' (Suc (allocated s) + n) = (False, True, False, CallFail ?e, True))
               \<and> (\<forall>m g v. snd (regs ! n) = Some (m, g) \<and> g ?e = Returns v \<and> \<not> isPromise v \<longrightarrow>
                    status s' (Suc (allocated s) + n) = (True, False, False, CallSuccess v, True))
               \<and> (\<forall>m g x. snd (regs ! n) = Some (m, g) \<and> g ?e = Throws x \<longrightarrow>
                    status s' (Suc (allocated s) + n) = (False, True, False, CallFail x, True))
               \<and> (\<forall>m g v. snd (regs ! n) = Some (m, g) \<and> g ?e = Returns v \<and> isPromise v \<longrightarrow>
                    status s' (Suc (allocated s) + n) = (False, False, True, Queue, False)))"
    by blast
qed

lemmas eval_defs = Promise_resolve_def Promise_reject_def Promise_process_def Promise_then_def
  normally_def returning_def update_def construct_def fresh_def initial_def Let_def lone_root_def
  status_def observe_def CancellationError_def isPromise_def

text \<open>
  Claim C6 as stated fails for the cancelled deferred itself: the child made by
  \<open>root.then(null, recover)\<close> is pending with a pending root, and after \<open>cancel\<close> on it
  it is resolved with what \<open>recover\<close> returned, not rejected with the CancellationError.
\<close>
theorem cancelled_child_recovers_counterexample:
  "(case then_all 2 0 [(None, Some (1, \<lambda>e. Returns (VStr ''recovered'')))] lone_root of
      None \<Rightarrow> False
    | Some s1 \<Rightarrow>
        (case Promise_cancel 2 6 1 s1 of
           None \<Rightarrow> False
         | Some (x, s') \<Rightarrow>
             parent (heap s1 1) = Some 0 \<and> parent (heap s1 0) = None
             \<and> status s1 0 = (False, False, True, Queue, False)
             \<and> status s1 1 = (False, False, True, Queue, False)
             \<and> status s' 1 = (True, False, False, CallSuccess (VStr ''recovered''), True)))"
  by (simp add: eval_defs eval_nat_numeral)

text \<open>
  The amended claim C6 for three registrations on a new root, with \<open>cancel\<close> on the
  second child, and for \<open>cancel\<close> on a root that was resolved before.
\<close>
theorem cancel_rejects_pending_root_witness:
  "(case then_all (Suc (Suc 0)) 0
           [(Some (1, \<lambda>v. Returns v), None),
            (None, Some (2, \<lambda>e. Returns (VStr ''recovered''))),
            (Some (3, \<lambda>v. Returns v), Some (4, \<lambda>e. Throws (VStr ''again'')))]
           (construct None (initial [])) of
      None \<Rightarrow> False
    | Some s1 \<Rightarrow>
        (case Promise_cancel (Suc (Suc 0)) 8 2 s1 of
           None \<Rightarrow> False
         | Some (x, s') \<Rightarrow>
             x = ReturnsDeferred 2
             \<and> status s' 0 = (False, True, False,
                   CallFail (VError [(''stack'', VStr []), (''message'', VStr ''promise cancelled''),
                                     (''name'', VStr ''CancellationError'')]), True)
             \<and> log s' = [(2, VError [(''stack'', VStr []), (''message'', VStr ''promise cancelled''),
                                     (''name'', VStr ''CancellationError'')]),
                          (4, VError [(''stack'', VStr []), (''message'', VStr ''promise cancelled''),
                                     (''name'', VStr ''CancellationError'')])]
             \<and> status s' 1 = (False, True, False,
                   CallFail (VError [(''stack'', VStr []), (''message'', VStr ''promise cancelled''),
                                     (''name'', VStr ''CancellationError'')]), True)
             \<and> status s' 2 = (True, False, False, CallSuccess (VStr ''recovered''), True)
             \<and> status s' 3 = (False, True, False, CallFail (VStr ''again''), True)))
   \<and> state_after (Promise_cancel (Suc 0) (Suc 0) 0
         (update 0 (\<lambda>d. d\<lparr>resolved := True, rejected := False, pending := False,
                          process := CallSuccess (VNum 1), inert := True\<rparr>) lone_root))
       = Some (update 0 (\<lambda>d. d\<lparr>resolved := True, rejected := False, pending := False,
                          process := CallSuccess (VNum 1), inert := True\<rparr>) lone_root)"
proof -
  let ?regs = "[(Some (1, \<lambda>v. Returns v), None),
            (None, Some (2, \<lambda>e. Returns (VStr ''recovered''))),
            (Some (3, \<lambda>v. Returns v), Some (4, \<lambda>e. Throws (VStr ''again'')))] :: registration list"
  let ?e = "VError [(''stack'', VStr []), (''message'', VStr ''promise cancelled''),
                                     (''name'', VStr ''CancellationError'')]"
  let ?sd = "update 0 (\<lambda>d. d\<lparr>resolved := True, rejected := False, pending := False,
                          process := CallSuccess (VNum 1), inert := True\<rparr>) lone_root"
  have i0: "allocated (initial []) = 0" "log (initial []) = []" "stack_text (initial []) = []"
    by (simp_all add: initial_def)
  have ce: "CancellationError [] = ?e" by (simp add: CancellationError_def)
  note t = cancel_rejects_pending_root
    [where regs = ?regs and s = "initial []" and i = 2 and j = 0 and w = 0 and k = 0,
     unfolded i0 ce, THEN conjunct2]
  have h: "(\<forall>(a, b) \<in> set ?regs. \<forall>m g. b = Some (m, g) \<longrightarrow> plain (g ?e)) \<and> 2 \<le> length ?regs"
    by simp
  from t [rule_format, OF h] obtain s1 s' where
    f: "then_all (Suc (Suc 0)) 0 ?regs (construct None (initial [])) = Some s1"
    "Promise_cancel (Suc (Suc 0)) (length ?regs + 5 + 0) (0 + 2) s1 = Some (ReturnsDeferred (0 + 2), s')"
    "status s' 0 = (False, True, False, CallFail ?e, True)"
    "log s' = [] @ failure_log ?regs ?e"
    and g: "\<forall>n < length ?regs.
               (snd (?regs ! n) = None \<longrightarrow>
                  status s' (Suc 0 + n) = (False, True, False, CallFail ?e, True))
               \<and> (\<forall>m g v. snd (?regs ! n) = Some (m, g) \<and> g ?e = Returns v \<and> \<not> isPromise v \<longrightarrow>
                    status s' (Suc 0 + n) = (True, False, False, CallSuccess v, True))
               \<and> (\<forall>m g x. snd (?regs ! n) = Some (m, g) \<and> g ?e = Throws x \<longrightarrow>
                    status s' (Suc 0 + n) = (False, True, False, CallFail x, True))
               \<and> (\<forall>m g v. snd (?regs ! n) = Some (m, g) \<and> g ?e = Returns v \<and> isPromise v \<longrightarrow>
                    status s' (Suc 0 + n) = (False, False, True, Queue, False))"
    by blast
  have c1: "status s' 1 = (False, True, False, CallFail ?e, True)"
    using g [rule_format, of 0] by simp
  have c2: "status s' 2 = (True, False, False, CallSuccess (VStr ''recovered''), True)"
    using g [rule_format, of 1] by (simp add: isPromise_def numeral_2_eq_2)
  have c3: "status s' 3 = (False, True, False, CallFail (VStr ''again''), True)"
    using g [rule_format, of 2] by (simp add: numeral_3_eq_3)
  have n8: "length ?regs + 5 + 0 = 8" by simp
  have lg: "log s' = [(2, ?e), (4, ?e)]" using f(4) by (simp add: failure_log_def)
  have r: "root_of (Suc 0) ?sd 0 = Some 0"
    by (simp add: lone_root_def construct_def initial_def fresh_def update_def)
  have hi: "inert (heap ?sd 0)" by (simp add: update_def)
  from cancel_rejects_pending_root [where w = "Suc 0" and s = ?sd and p = 0 and r = 0 and k = 0,
      THEN conjunct1, rule_format, OF r]
  have d: "state_after (Promise_cancel (Suc 0) (Suc 0) 0 ?sd) = Some ?sd"
    using hi by blast
  have z: "0 + 2 = (2::nat)" by simp
  show ?thesis
    using f(1) f(2) [unfolded n8 z] f(3) lg c1 c2 c3 d
    by (simp del: then_all.simps Promise_cancel.simps)
qed

text \<open>
  Claim C5 at \<open>d.promise.then(f, g); d.promise.then(d.reject); d.resolve(1)\<close> on a new
  deferred: the one call of \<open>resolve\<close> invokes \<open>f\<close> and then \<open>g\<close>, and leaves the
  deferred rejected by its flags while its \<open>_process\<close> hands 1 to success callbacks.
\<close>
theorem settles_twice_when_callback_rejects:
  "(case then_all 2 0 [(Some (1, \<lambda>v. Returns VUndefined), Some (2, \<lambda>v. Returns VUndefined))] lone_root of
      None \<Rightarrow> False
    | Some s1 \<Rightarrow>
        (case run 2 (Then 0 (Some (RejectOf 0)) None) s1 of
           None \<Rightarrow> False
         | Some (x, s2) \<Rightarrow>
             status s2 0 = (False, False, True, Queue, False)
             \<and> observe 0 (run 12 (Resolve 0 (VNum 1)) s2)
                 = Some (ReturnsDeferred 0, [(1, VNum 1), (2, VNum 1)], False, True, False,
                         CallSuccess (VNum 1))))"
  by (simp add: eval_defs eval_nat_numeral)

lemma awaiting_emits: "awaiting (foldl (\<lambda>a p. emit p a) w es) = awaiting w"
  by (induction es arbitrary: w) (simp_all add: emit_def send_def split: jsval.splits)

lemma responses_emits:
  "filter (is_response_to i) (sent (foldl (\<lambda>a p. emit p a) w es)) = filter (is_response_to i) (sent w)"
  by (induction es arbitrary: w) (simp_all add: emit_def send_def is_response_to_def split: jsval.splits)

lemma not_both_not_promise: "\<not> (has_callable ''then'' v \<and> has_callable ''catch'' v) \<Longrightarrow> \<not> isPromise v"
  by (simp add: isPromise_def)

text \<open>
  Claim C9. \<open>isPromise\<close> holds of a value exactly when it is truthy and has a callable
  \<open>then\<close> and a callable \<open>catch\<close>. A value that lacks one of the two is a plain result:
  the worker sends it at once as the result of the response and waits for nothing, and
  the closure of \<open>_then\<close> resolves the new deferred with the value itself. A value for
  which \<open>isPromise\<close> holds is waited for: the worker sends no response yet, and the
  closure subscribes to it and leaves the new deferred pending.
\<close>
theorem awaits_only_then_and_catch:
  "(isPromise v \<longleftrightarrow> truthy v \<and> has_callable ''then'' v \<and> has_callable ''catch'' v)
   \<and> (\<not> (has_callable ''then'' v \<and> has_callable ''catch'' v) \<longrightarrow>
        (\<forall>m es. lookup_method w name = Some m
             \<and> invoke (w\<lparr>currentRequestId := VNum rid\<rparr>) m params = (es, Returned v) \<longrightarrow>
           last (sent (on_message (Request rid name params) w)) = success_reply (VNum rid) v
           \<and> awaiting (on_message (Request rid name params) w) = awaiting w)
        \<and> (f x = Returns v \<and> \<not> inert (heap s c) \<and> onSuccess (heap s c) = [] \<longrightarrow>
             state_after (run (Suc (Suc (Suc k))) (CallFn (Wrapped (User l f) c) x) s)
               = Some (update c (\<lambda>d. d\<lparr>resolved := True, rejected := False, pending := False,
                     process := CallSuccess v, inert := True\<rparr>) (s\<lparr>log := log s @ [(l, x)]\<rparr>))))
   \<and> (isPromise v \<longrightarrow>
        (\<forall>m es. lookup_method w name = Some m
             \<and> invoke (w\<lparr>currentRequestId := VNum rid\<rparr>) m params = (es, Returned v) \<longrightarrow>
           awaiting (on_message (Request rid name params) w) = awaiting w @ [(settlement_of v, ReplyTo (VNum rid))]
           \<and> filter (is_response_to (VNum rid)) (sent (on_message (Request rid name params) w))
               = filter (is_response_to (VNum rid)) (sent w))
        \<and> (f x = Returns v \<longrightarrow>
             state_after (run (Suc (Suc k)) (CallFn (Wrapped (User l f) c) x) s)
               = Some (s\<lparr>log := log s @ [(l, x)],
                         subscriptions := subscriptions s @ [(settlement_of v, c)]\<rparr>)))"
proof -
  have c1: "isPromise v \<longleftrightarrow> truthy v \<and> has_callable ''then'' v \<and> has_callable ''catch'' v"
    by (simp add: isPromise_def)
  have c2: "last (sent (on_message (Request rid name params) w)) = success_reply (VNum rid) v
           \<and> awaiting (on_message (Request rid name params) w) = awaiting w"
    if "\<not> isPromise v" "lookup_method w name = Some m
             \<and> invoke (w\<lparr>currentRequestId := VNum rid\<rparr>) m params = (es, Returned v)" for m es
    using that by (simp add: serve_def Let_def last_respond respond_def send_def awaiting_emits)
  have c3: "state_after (run (Suc (Suc (Suc k))) (CallFn (Wrapped (User l f) c) x) s)
               = Some (update c (\<lambda>d. d\<lparr>resolved := True, rejected := False, pending := False,
                     process := CallSuccess v, inert := True\<rparr>) (s\<lparr>log := log s @ [(l, x)]\<rparr>))"
    if "\<not> isPromise v" "f x = Returns v \<and> \<not> inert (heap s c) \<and> onSuccess (heap s c) = []"
    using that
    by (simp add: state_after_def Promise_resolve_def normally_def update_def Let_def)
  have c4: "awaiting (on_message (Request rid name params) w) = awaiting w @ [(settlement_of v, ReplyTo (VNum rid))]
           \<and> filter (is_response_to (VNum rid)) (sent (on_message (Request rid name params) w))
               = filter (is_response_to (VNum rid)) (sent w)"
    if "isPromise v" "lookup_method w name = Some m
             \<and> invoke (w\<lparr>currentRequestId := VNum rid\<rparr>) m params = (es, Returned v)" for m es
    using that by (simp add: serve_def Let_def awaiting_emits responses_emits)
  have c5: "state_after (run (Suc (Suc k)) (CallFn (Wrapped (User l f) c) x) s)
               = Some (s\<lparr>log := log s @ [(l, x)],
                         subscriptions := subscriptions s @ [(settlement_of v, c)]\<rparr>)"
    if "isPromise v" "f x = Returns v"
    using that by (simp add: state_after_def)
  show ?thesis
    using c1 c2 c3 c4 c5 not_both_not_promise [of v] by blast
qed

text \<open>
  Claim C9 for a thenable with a callable \<open>then\<close> and no \<open>catch\<close>, returned by a worker
  method and by a \<open>then\<close> callback, and for a promise returned by a worker method.
\<close>
theorem awaits_only_then_and_catch_witness:
  "has_callable ''then'' (VThenable False (Fulfils (VNum 1)))
   \<and> \<not> has_callable ''catch'' (VThenable False (Fulfils (VNum 1)))
   \<and> last (sent (on_message (Request 1 ''t'' [])
        (worker_with [(''t'', \<lambda>params. ([], Returned (VThenable False (Fulfils (VNum 1)))))])))
       = Response (VNum 1) (VThenable False (Fulfils (VNum 1))) VNull None
   \<and> state_after (run (Suc (Suc (Suc 0)))
         (CallFn (Wrapped (User 1 (\<lambda>x. Returns (VThenable False (Fulfils (VNum 1))))) 0) VNull) lone_root)
       = Some (update 0 (\<lambda>d. d\<lparr>resolved := True, rejected := False, pending := False,
             process := CallSuccess (VThenable False (Fulfils (VNum 1))), inert := True\<rparr>)
           (lone_root\<lparr>log := log lone_root @ [(1, VNull)]\<rparr>))
   \<and> isPromise (VThenable True (Fulfils (VNum 1)))
   \<and> awaiting (on_message (Request 1 ''t'' [])
        (worker_with [(''t'', \<lambda>params. ([], Returned (VThenable True (Fulfils (VNum 1)))))]))
       = [(Fulfils (VNum 1), ReplyTo (VNum 1))]"
proof -
  let ?v = "VThenable False (Fulfils (VNum 1))"
  let ?p = "VThenable True (Fulfils (VNum 1))"
  let ?w = "worker_with [(''t'', \<lambda>params. ([], Returned ?v))]"
  let ?w' = "worker_with [(''t'', \<lambda>params. ([], Returned ?p))]"
  have h: "has_callable ''then'' ?v" "\<not> has_callable ''catch'' ?v" by simp_all
  have lw: "lookup_method ?w ''t'' = Some (UserMethod (\<lambda>params. ([], Returned ?v)))
      \<and> invoke (?w\<lparr>currentRequestId := VNum 1\<rparr>) (UserMethod (\<lambda>params. ([], Returned ?v))) [] = ([], Returned ?v)"
    by (simp add: worker_with_def register_def initial_worker_def send_def lookup_method_def)
  have lw': "lookup_method ?w' ''t'' = Some (UserMethod (\<lambda>params. ([], Returned ?p)))
      \<and> invoke (?w'\<lparr>currentRequestId := VNum 1\<rparr>) (UserMethod (\<lambda>params. ([], Returned ?p))) [] = ([], Returned ?p)"
    by (simp add: worker_with_def register_def initial_worker_def send_def lookup_method_def)
  have aw: "awaiting ?w' = []"
    by (simp add: worker_with_def register_def initial_worker_def send_def)
  have lr: "\<not> inert (heap lone_root 0) \<and> onSuccess (heap lone_root 0) = []"
    by (simp add: lone_root_def construct_def initial_def fresh_def)
  note t = awaits_only_then_and_catch
    [where v = ?v and w = ?w and name = "''t''" and rid = 1 and params = "[]"
       and f = "\<lambda>x. Returns ?v" and x = VNull and s = lone_root and c = 0 and k = 0 and l = 1]
  note t' = awaits_only_then_and_catch
    [where v = ?p and w = ?w' and name = "''t''" and rid = 1 and params = "[]"
       and f = "\<lambda>x. Returns ?p" and x = VNull and s = lone_root and c = 0 and k = 0 and l = 1]
  have a: "last (sent (on_message (Request 1 ''t'' []) ?w)) = success_reply (VNum 1) ?v"
    using t h lw by blast
  have b: "state_after (run (Suc (Suc (Suc 0))) (CallFn (Wrapped (User 1 (\<lambda>x. Returns ?v)) 0) VNull) lone_root)
       = Some (update 0 (\<lambda>d. d\<lparr>resolved := True, rejected := False, pending := False,
             process := CallSuccess ?v, inert := True\<rparr>)
           (lone_root\<lparr>log := log lone_root @ [(1, VNull)]\<rparr>))"
    using t h lr by blast
  have p: "isPromise ?p" by (simp add: isPromise_def)
  have c: "awaiting (on_message (Request 1 ''t'' []) ?w') = awaiting ?w' @ [(settlement_of ?p, ReplyTo (VNum 1))]"
    using t' p lw' by blast
  show ?thesis
    using h a b p c aw by (simp add: success_reply_def del: run.simps on_message.simps)
qed

end
